theory Spec2Isabelle
  imports Main "HOL-Library.Word"
begin

unbundle bit_operations_syntax

section \<open>Error values (Error.h)\<close>

text \<open>
  \<^verbatim>\<open>using ErrorCode = int\<close>; the codes are the constants 0 to 5 and are only ever
  compared. A \<^verbatim>\<open>boost::system::error_code\<close> is represented by its integer value; its
  conversion to \<^verbatim>\<open>bool\<close> is "the value is not 0".
\<close>

type_synonym ErrorCode = int
type_synonym boost_error_code = int

record Error =
  asionetCode :: ErrorCode
  boostCode :: boost_error_code

definition getBoostCode :: "Error \<Rightarrow> boost_error_code" where
  "getBoostCode e = boostCode e"

text \<open>\<^verbatim>\<open>explicit operator bool\<close>, \<^verbatim>\<open>operator==\<close> and \<^verbatim>\<open>operator!=\<close>.\<close>

definition Error_bool :: "Error \<Rightarrow> bool" where
  "Error_bool e = (asionetCode e \<noteq> 0)"

definition Error_eq :: "Error \<Rightarrow> Error \<Rightarrow> bool" where
  "Error_eq lhs rhs = (asionetCode lhs = asionetCode rhs)"

definition Error_neq :: "Error \<Rightarrow> Error \<Rightarrow> bool" where
  "Error_neq lhs rhs = (\<not> Error_eq lhs rhs)"

definition codes_success :: ErrorCode where "codes_success = 0"
definition codes_failedOperation :: ErrorCode where "codes_failedOperation = 1"
definition codes_aborted :: ErrorCode where "codes_aborted = 2"
definition codes_encoding :: ErrorCode where "codes_encoding = 3"
definition codes_decoding :: ErrorCode where "codes_decoding = 4"
definition codes_invalidFrame :: ErrorCode where "codes_invalidFrame = 5"

text \<open>\<^verbatim>\<open>const Error aborted{codes::aborted}\<close>: the transport code is default-constructed.\<close>

definition success :: Error where
  "success = \<lparr>asionetCode = codes_success, boostCode = 0\<rparr>"
definition failedOperation :: Error where
  "failedOperation = \<lparr>asionetCode = codes_failedOperation, boostCode = 0\<rparr>"
definition aborted :: Error where
  "aborted = \<lparr>asionetCode = codes_aborted, boostCode = 0\<rparr>"
definition encoding :: Error where
  "encoding = \<lparr>asionetCode = codes_encoding, boostCode = 0\<rparr>"
definition decoding :: Error where
  "decoding = \<lparr>asionetCode = codes_decoding, boostCode = 0\<rparr>"
definition invalidFrame :: Error where
  "invalidFrame = \<lparr>asionetCode = codes_invalidFrame, boostCode = 0\<rparr>"

section \<open>Byte order helpers (Utils.h)\<close>

type_synonym uint8 = "8 word"
type_synonym uint32 = "32 word"

text \<open>
  \<^verbatim>\<open>toBigEndian<numBytes>(dest, src)\<close> with \<^verbatim>\<open>Int = std::uint32_t\<close>. The loop counter runs
  from 0 to \<^verbatim>\<open>numBytes\<close>; the first argument of the loop function is the number of
  iterations left, the second the current \<^verbatim>\<open>bitsToShift\<close>. The bytes written to
  \<^verbatim>\<open>dest[0..numBytes)\<close> are returned as a list.
\<close>

fun toBigEndian_loop :: "nat \<Rightarrow> nat \<Rightarrow> uint32 \<Rightarrow> uint8 list" where
  "toBigEndian_loop 0 bitsToShift src = []"
| "toBigEndian_loop (Suc k) bitsToShift src =
     (let bitsToShift' = bitsToShift - 8
      in ucast (drop_bit bitsToShift' src AND 0x000000ff) # toBigEndian_loop k bitsToShift' src)"

definition toBigEndian :: "nat \<Rightarrow> uint32 \<Rightarrow> uint8 list" where
  "toBigEndian numBytes src = toBigEndian_loop numBytes (numBytes * 8) src"

text \<open>
  \<^verbatim>\<open>fromBigEndian<numBytes, std::uint32_t>(bytes)\<close>. The source reads \<^verbatim>\<open>bytes[i]\<close> for
  every \<^verbatim>\<open>i < numBytes\<close>; a read past the end of the byte sequence has no defined
  result there and is \<open>None\<close> here.
\<close>

fun fromBigEndian_loop :: "nat \<Rightarrow> nat \<Rightarrow> uint32 \<Rightarrow> uint8 list \<Rightarrow> uint32 option" where
  "fromBigEndian_loop 0 bitsToShift result bytes = Some result"
| "fromBigEndian_loop (Suc k) bitsToShift result [] = None"
| "fromBigEndian_loop (Suc k) bitsToShift result (b # bytes) =
     (let bitsToShift' = bitsToShift - 8
      in fromBigEndian_loop k bitsToShift' (result + push_bit bitsToShift' (ucast b)) bytes)"

definition fromBigEndian :: "nat \<Rightarrow> uint8 list \<Rightarrow> uint32 option" where
  "fromBigEndian numBytes bytes = fromBigEndian_loop numBytes (numBytes * 8) 0 bytes"

section \<open>Frames (Frame.h)\<close>

definition HEADER_SIZE :: nat where
  "HEADER_SIZE = 4"

text \<open>
  The class keeps the payload length as \<^verbatim>\<open>std::uint32_t\<close>, the four header bytes and a
  pointer to the payload, whose bytes are the list \<open>data\<close>. Sizes of type
  \<^verbatim>\<open>std::size_t\<close> (64 bits wide, so that the sum of 4 and a 32-bit length does not wrap)
  are natural numbers; the one place where a size is narrowed, the constructor's
  \<^verbatim>\<open>std::uint32_t numDataBytes\<close> parameter, is written out.
\<close>

record Frame =
  numDataBytes :: uint32
  header :: "uint8 list"
  data :: "uint8 list"

definition Frame_new :: "uint8 list \<Rightarrow> nat \<Rightarrow> Frame" where
  "Frame_new dataBytes count =
     (let n = (of_nat count :: uint32)
      in \<lparr>numDataBytes = n, header = toBigEndian 4 n, data = dataBytes\<rparr>)"

text \<open>\<^verbatim>\<open>getBuffers\<close>: the header buffer and the payload buffer of \<^verbatim>\<open>numDataBytes\<close> bytes.\<close>

definition getBuffers :: "Frame \<Rightarrow> uint8 list list" where
  "getBuffers f = [header f, take (unat (numDataBytes f)) (data f)]"

definition getSize :: "Frame \<Rightarrow> nat" where
  "getSize f = 4 + unat (numDataBytes f)"

text \<open>
  Both writers build the frame as
  \<^verbatim>\<open>Frame((const std::uint8_t *) writeData.c_str(), writeData.size())\<close> and hand
  \<^verbatim>\<open>getBuffers()\<close> to one vectored send, which puts the buffers on the wire one after the
  other.
\<close>

definition frameOf :: "uint8 list \<Rightarrow> Frame" where
  "frameOf writeData = Frame_new writeData (length writeData)"

definition wireBytes :: "Frame \<Rightarrow> uint8 list" where
  "wireBytes f = concat (getBuffers f)"

section \<open>Buffer views (ConstBuffer.h)\<close>

text \<open>
  A view of \<open>numBytes\<close> bytes from \<open>offset\<close>; the constructors assert
  \<^verbatim>\<open>buffer.size() >= offset + numBytes\<close>, which is \<open>None\<close> here when violated. The value
  of a view is the byte sequence from \<^verbatim>\<open>begin()\<close> to \<^verbatim>\<open>end()\<close>.
\<close>

definition ConstVectorBuffer :: "uint8 list \<Rightarrow> nat \<Rightarrow> nat \<Rightarrow> uint8 list option" where
  "ConstVectorBuffer buffer numBytes offset =
     (if length buffer \<ge> offset + numBytes then Some (take numBytes (drop offset buffer))
      else None)"

definition ConstStreamBuffer :: "uint8 list \<Rightarrow> nat \<Rightarrow> nat \<Rightarrow> uint8 list option" where
  "ConstStreamBuffer buffer numBytes offset =
     (if length buffer \<ge> offset + numBytes then Some (take numBytes (drop offset buffer))
      else None)"

section \<open>Timed operations on a closeable handle (Closeable.h)\<close>

text \<open>
  The two lambdas of \<^verbatim>\<open>timedAsyncOperation\<close> are wrapped by a work serializer
  (WorkSerializer.h is not among the sources), which runs them one at a time; each is a
  function on the state they share. That state is: whether
  the handle is open, whether the deadline timer is still armed, and the errors handed
  to the wrapped handler so far, in order.
\<close>

record TimedOperation =
  is_open :: bool
  timerArmed :: bool
  handlerErrors :: "Error list"

text \<open>The timer's handler: \<^verbatim>\<open>Closer<Closeable>::close(closeable)\<close>.\<close>

definition timedAsyncOperation_timeout :: "TimedOperation \<Rightarrow> TimedOperation" where
  "timedAsyncOperation_timeout t = t\<lparr>is_open := False\<rparr>"

text \<open>The error that the completion lambda computes from the handle and the boost code.\<close>

definition completionError :: "bool \<Rightarrow> boost_error_code \<Rightarrow> Error" where
  "completionError isOpen code =
     (if \<not> isOpen then aborted
      else if code \<noteq> 0 then \<lparr>asionetCode = codes_failedOperation, boostCode = code\<rparr>
      else success)"

text \<open>
  The operation's completion lambda: \<^verbatim>\<open>timer->cancel()\<close>, then the error is computed
  and the wrapped handler is called with it.
\<close>

definition timedAsyncOperation_completion :: "boost_error_code \<Rightarrow> TimedOperation \<Rightarrow> TimedOperation" where
  "timedAsyncOperation_completion code t =
     (let t1 = t\<lparr>timerArmed := False\<rparr>;
          error = completionError (is_open t1) code
      in t1\<lparr>handlerErrors := handlerErrors t1 @ [error]\<rparr>)"

section \<open>Framed writes (Stream.h, Socket.h)\<close>

text \<open>
  The handlers that \<^verbatim>\<open>stream::asyncWrite\<close> and \<^verbatim>\<open>socket::asyncSendTo\<close> pass to
  \<^verbatim>\<open>timedAsyncOperation\<close>: given the frame, the error computed by the wrapper and the
  number of bytes transferred, the error handed to the caller's handler.
\<close>

definition asyncWrite_handler :: "Frame \<Rightarrow> Error \<Rightarrow> nat \<Rightarrow> Error" where
  "asyncWrite_handler frame error numBytesTransferred =
     (if numBytesTransferred < getSize frame then failedOperation else error)"

definition asyncSendTo_handler :: "Frame \<Rightarrow> Error \<Rightarrow> nat \<Rightarrow> Error" where
  "asyncSendTo_handler frame error numBytesTransferred =
     (if numBytesTransferred < getSize frame then failedOperation else error)"

text \<open>
  A completed write, from the raw completion of the transport up to the caller's
  handler: the handle's state and the boost code go through the wrapper, the result and
  the byte count through the writer's handler.
\<close>

definition asyncWrite_completed :: "uint8 list \<Rightarrow> bool \<Rightarrow> boost_error_code \<Rightarrow> nat \<Rightarrow> Error" where
  "asyncWrite_completed writeData isOpen code numBytesTransferred =
     asyncWrite_handler (frameOf writeData) (completionError isOpen code) numBytesTransferred"

definition asyncSendTo_completed :: "uint8 list \<Rightarrow> bool \<Rightarrow> boost_error_code \<Rightarrow> nat \<Rightarrow> Error" where
  "asyncSendTo_completed sendData isOpen code numBytesTransferred =
     asyncSendTo_handler (frameOf sendData) (completionError isOpen code) numBytesTransferred"

section \<open>Framed reads (Socket.h, Stream.h)\<close>

text \<open>
  \<^verbatim>\<open>socket::internal::numDataBytesFromBuffer\<close>: \<open>None\<close> is the result \<^verbatim>\<open>false\<close>,
  \<open>Some n\<close> is \<^verbatim>\<open>true\<close> with \<^verbatim>\<open>numDataBytes = n\<close>. The receive buffers of this program
  have at least \<open>HEADER_SIZE\<close> bytes, so the header read stays inside the buffer.
\<close>

definition socket_numDataBytesFromBuffer :: "uint8 list \<Rightarrow> nat \<Rightarrow> nat option" where
  "socket_numDataBytesFromBuffer buffer numBytesTransferred =
     (if numBytesTransferred < 4 then None
      else case fromBigEndian 4 buffer of
        None \<Rightarrow> None
      | Some n \<Rightarrow> if numBytesTransferred < 4 + unat n then None else Some (unat n))"

text \<open>
  The handler that \<^verbatim>\<open>socket::asyncReceiveFrom\<close> passes to the wrapper: the error and the
  view handed on to the caller.
\<close>

definition asyncReceiveFrom_handler ::
  "uint8 list \<Rightarrow> Error \<Rightarrow> nat \<Rightarrow> Error \<times> uint8 list option" where
  "asyncReceiveFrom_handler buffer error numBytesTransferred =
     (if Error_bool error then (error, ConstVectorBuffer buffer 0 0)
      else case socket_numDataBytesFromBuffer buffer numBytesTransferred of
        None \<Rightarrow> (invalidFrame, ConstVectorBuffer buffer 0 0)
      | Some n \<Rightarrow> (error, ConstVectorBuffer buffer n HEADER_SIZE))"

text \<open>
  A datagram arriving in the fixed receive buffer: the bytes that fit overwrite the
  front of the buffer, and their number is the count transferred.
\<close>

definition receiveInto :: "uint8 list \<Rightarrow> uint8 list \<Rightarrow> uint8 list \<times> nat" where
  "receiveInto buffer datagram =
     (let n = min (length datagram) (length buffer)
      in (take n datagram @ drop n buffer, n))"

definition receiveDatagram :: "uint8 list \<Rightarrow> uint8 list \<Rightarrow> Error \<times> uint8 list option" where
  "receiveDatagram buffer datagram =
     (let (buffer', n) = receiveInto buffer datagram
      in asyncReceiveFrom_handler buffer' (completionError True 0) n)"

text \<open>
  \<^verbatim>\<open>stream::internal::numDataBytesFromBuffer\<close> reads the first \<open>HEADER_SIZE\<close> bytes of the
  stream buffer.
\<close>

definition stream_numDataBytesFromBuffer :: "uint8 list \<Rightarrow> uint32 option" where
  "stream_numDataBytesFromBuffer streambuf = fromBigEndian 4 (take HEADER_SIZE streambuf)"

text \<open>
  The two handlers of \<^verbatim>\<open>stream::asyncRead\<close>. The header handler either finishes the
  read (error, view, bytes consumed from the buffer) or asks for the payload of the
  given length; the payload handler finishes it.
\<close>

datatype HeaderResult =
  Finished Error "uint8 list option" nat
| ReadData uint32

definition asyncRead_headerHandler :: "uint8 list \<Rightarrow> Error \<Rightarrow> nat \<Rightarrow> HeaderResult option" where
  "asyncRead_headerHandler buffer error numBytesTransferred =
     (if Error_bool error then Some (Finished error (ConstStreamBuffer buffer 0 0) numBytesTransferred)
      else if numBytesTransferred \<noteq> HEADER_SIZE
        then Some (Finished invalidFrame (ConstStreamBuffer buffer 0 0) numBytesTransferred)
      else case stream_numDataBytesFromBuffer buffer of
        None \<Rightarrow> None
      | Some n \<Rightarrow>
          if n = 0 then Some (Finished error (ConstStreamBuffer buffer 0 0) numBytesTransferred)
          else Some (ReadData n))"

definition asyncRead_dataHandler ::
  "uint8 list \<Rightarrow> uint32 \<Rightarrow> Error \<Rightarrow> nat \<Rightarrow> Error \<times> uint8 list option \<times> nat" where
  "asyncRead_dataHandler buffer n error numBytesTransferred =
     (if Error_bool error
        then (error, ConstStreamBuffer buffer 0 0, HEADER_SIZE + numBytesTransferred)
      else if numBytesTransferred \<noteq> unat n
        then (invalidFrame, ConstStreamBuffer buffer 0 0, HEADER_SIZE + numBytesTransferred)
      else (error, ConstStreamBuffer buffer (unat n) HEADER_SIZE, HEADER_SIZE + numBytesTransferred))"

text \<open>
  The transport under \<^verbatim>\<open>boost::asio::async_read\<close> with \<^verbatim>\<open>transfer_exactly(want)\<close>, on a
  stream that delivers the bytes \<open>incoming\<close> and is then shut down by the peer, into a
  stream buffer with \<open>room\<close> free bytes: the count transferred and the boost code, which
  is end-of-file (the value 2) when the stream ended before the count was reached.
\<close>

definition transferExactly :: "uint8 list \<Rightarrow> nat \<Rightarrow> nat \<Rightarrow> nat \<times> boost_error_code" where
  "transferExactly incoming room want =
     (let n = min want (min (length incoming) room)
      in (n, if n < want \<and> n = length incoming then 2 else 0))"

text \<open>
  Reading one frame from such a stream with \<^verbatim>\<open>stream::asyncRead\<close> on an open socket, into a
  stream buffer of capacity \<open>maxMessageSize + HEADER_SIZE\<close>: the header read, then the
  payload read of the announced length, each through the wrapper of Closeable.h.
\<close>

definition readFrame :: "nat \<Rightarrow> uint8 list \<Rightarrow> (Error \<times> uint8 list option) option" where
  "readFrame maxMessageSize incoming =
     (let capacity = maxMessageSize + HEADER_SIZE;
          (n1, code1) = transferExactly incoming capacity HEADER_SIZE;
          buffer1 = take n1 incoming
      in case asyncRead_headerHandler buffer1 (completionError True code1) n1 of
        None \<Rightarrow> None
      | Some (Finished e view consumed) \<Rightarrow> Some (e, view)
      | Some (ReadData n) \<Rightarrow>
          (let (n2, code2) = transferExactly (drop n1 incoming) (capacity - n1) (unat n);
               buffer2 = take (n1 + n2) incoming
           in case asyncRead_dataHandler buffer2 n (completionError True code2) n2 of
                (e, view, consumed) \<Rightarrow> Some (e, view)))"

section \<open>The operation manager (AsyncOperationManager.h)\<close>

text \<open>
  An operation record is the captured invocation \<^verbatim>\<open>asyncOperation(args...)\<close>. Every
  component hands the manager the same callable, so a record is represented by its
  captured arguments \<open>'op\<close>, and the callable is the function \<open>asyncOperation\<close> that the
  manager's operations take as an argument. The two container classes are the two
  constructors of one type.
\<close>

datatype 'op PendingOperationContainer =
    PendingOperationQueue "'op list"
  | PendingOperationReplacer "'op option"

fun shouldCancel :: "'op PendingOperationContainer \<Rightarrow> bool" where
  "shouldCancel (PendingOperationQueue operations) = False"
| "shouldCancel (PendingOperationReplacer operation) = True"

fun hasPendingOperation :: "'op PendingOperationContainer \<Rightarrow> bool" where
  "hasPendingOperation (PendingOperationQueue operations) = (operations \<noteq> [])"
| "hasPendingOperation (PendingOperationReplacer operation) = (operation \<noteq> None)"

fun pushPendingOperation ::
  "'op \<Rightarrow> 'op PendingOperationContainer \<Rightarrow> 'op PendingOperationContainer" where
  "pushPendingOperation op (PendingOperationQueue operations) =
     PendingOperationQueue (operations @ [op])"
| "pushPendingOperation op (PendingOperationReplacer operation) =
     PendingOperationReplacer (Some op)"

text \<open>
  \<^verbatim>\<open>pop()\<close> and \<^verbatim>\<open>front()\<close> of an empty \<^verbatim>\<open>std::queue\<close> and the dereference of a null
  pointer are not defined in the source; the manager calls them only after
  \<^verbatim>\<open>hasPendingOperation()\<close>. Here \<open>getPendingOperation\<close> is \<open>None\<close> on an empty
  container, and popping an empty container leaves it empty.
\<close>

fun popPendingOperation :: "'op PendingOperationContainer \<Rightarrow> 'op PendingOperationContainer" where
  "popPendingOperation (PendingOperationQueue operations) = PendingOperationQueue (tl operations)"
| "popPendingOperation (PendingOperationReplacer operation) = PendingOperationReplacer None"

fun getPendingOperation :: "'op PendingOperationContainer \<Rightarrow> 'op option" where
  "getPendingOperation (PendingOperationQueue []) = None"
| "getPendingOperation (PendingOperationQueue (op # operations)) = Some op"
| "getPendingOperation (PendingOperationReplacer operation) = operation"

fun reset :: "'op PendingOperationContainer \<Rightarrow> 'op PendingOperationContainer" where
  "reset (PendingOperationQueue operations) = PendingOperationQueue []"
| "reset (PendingOperationReplacer operation) = PendingOperationReplacer None"

text \<open>
  The manager's own state. A component owns its manager as a member; here the
  component's record extends the manager's, so that the manager's operations act on
  the whole component and the callables they invoke
  (\<^verbatim>\<open>cancelingOperation\<close>, \<^verbatim>\<open>asyncOperation\<close>), which are closures over the component,
  are functions on the component's state.
\<close>

record 'op AsyncOperationManager =
  pendingOperations :: "'op PendingOperationContainer"
  running :: bool
  canceled :: bool

definition startOperation ::
  "(('op, 'c) AsyncOperationManager_scheme \<Rightarrow> ('op, 'c) AsyncOperationManager_scheme) \<Rightarrow>
   ('op \<Rightarrow> ('op, 'c) AsyncOperationManager_scheme \<Rightarrow> ('op, 'c) AsyncOperationManager_scheme) \<Rightarrow>
   'op \<Rightarrow> ('op, 'c) AsyncOperationManager_scheme \<Rightarrow> ('op, 'c) AsyncOperationManager_scheme" where
  "startOperation cancelingOperation asyncOperation op m =
     (if \<not> running m then asyncOperation op (m\<lparr>running := True\<rparr>)
      else
        (let m1 = (if shouldCancel (pendingOperations m) then cancelingOperation m else m)
         in m1\<lparr>pendingOperations := pushPendingOperation op (pendingOperations m1)\<rparr>))"

definition finishOperation ::
  "('op \<Rightarrow> ('op, 'c) AsyncOperationManager_scheme \<Rightarrow> ('op, 'c) AsyncOperationManager_scheme) \<Rightarrow>
   ('op, 'c) AsyncOperationManager_scheme \<Rightarrow> ('op, 'c) AsyncOperationManager_scheme" where
  "finishOperation asyncOperation m =
     (let m1 = m\<lparr>canceled := False\<rparr>
      in if \<not> hasPendingOperation (pendingOperations m1) then m1\<lparr>running := False\<rparr>
         else
           (case getPendingOperation (pendingOperations m1) of
              None \<Rightarrow> m1
            | Some pendingOperation \<Rightarrow>
                asyncOperation pendingOperation
                  (m1\<lparr>pendingOperations := popPendingOperation (pendingOperations m1)\<rparr>)))"

definition cancelOperation ::
  "(('op, 'c) AsyncOperationManager_scheme \<Rightarrow> ('op, 'c) AsyncOperationManager_scheme) \<Rightarrow>
   ('op, 'c) AsyncOperationManager_scheme \<Rightarrow> ('op, 'c) AsyncOperationManager_scheme" where
  "cancelOperation cancelingOperation m =
     (let m1 = cancelingOperation (m\<lparr>canceled := True\<rparr>)
      in m1\<lparr>pendingOperations := reset (pendingOperations m1)\<rparr>)"

definition isCanceled :: "('op, 'c) AsyncOperationManager_scheme \<Rightarrow> bool" where
  "isCanceled m = canceled m"

text \<open>
  \<^verbatim>\<open>FinishedOperationNotifier\<close>: the \<^verbatim>\<open>enabled\<close> flag, true on construction. \<open>notify\<close>
  clears the flag and finishes the operation; the destructor finishes it when the flag
  is still set.
\<close>

type_synonym FinishedOperationNotifier = bool

definition notify ::
  "('op \<Rightarrow> ('op, 'c) AsyncOperationManager_scheme \<Rightarrow> ('op, 'c) AsyncOperationManager_scheme) \<Rightarrow>
   FinishedOperationNotifier \<Rightarrow> ('op, 'c) AsyncOperationManager_scheme \<Rightarrow>
   FinishedOperationNotifier \<times> ('op, 'c) AsyncOperationManager_scheme" where
  "notify asyncOperation enabled m = (False, finishOperation asyncOperation m)"

definition destroyNotifier ::
  "('op \<Rightarrow> ('op, 'c) AsyncOperationManager_scheme \<Rightarrow> ('op, 'c) AsyncOperationManager_scheme) \<Rightarrow>
   FinishedOperationNotifier \<Rightarrow> ('op, 'c) AsyncOperationManager_scheme \<Rightarrow>
   ('op, 'c) AsyncOperationManager_scheme" where
  "destroyNotifier asyncOperation enabled m =
     (if enabled then finishOperation asyncOperation m else m)"

text \<open>
  A manager on its own, with a record of the operations it has invoked and of the calls
  of the canceling operation, in order: the callables of a component whose operations
  and whose closer do nothing to the manager.
\<close>

datatype 'op Invocation = Operation 'op | CancelingOperation

record 'op Probe = "'op AsyncOperationManager" +
  invoked :: "'op Invocation list"

definition probeOperation :: "'op \<Rightarrow> 'op Probe \<Rightarrow> 'op Probe" where
  "probeOperation op m = m\<lparr>invoked := invoked m @ [Operation op]\<rparr>"

definition probeCanceling :: "'op Probe \<Rightarrow> 'op Probe" where
  "probeCanceling m = m\<lparr>invoked := invoked m @ [CancelingOperation]\<rparr>"

definition newProbe :: "'op PendingOperationContainer \<Rightarrow> 'op Probe" where
  "newProbe container =
     \<lparr>pendingOperations = container, running = False, canceled = False, invoked = []\<rparr>"

text \<open>The calls made on a manager from outside, and a run of calls in order.\<close>

datatype 'op ManagerCall = Start 'op | Finish | CancelAll

fun managerCall :: "'op ManagerCall \<Rightarrow> 'op Probe \<Rightarrow> 'op Probe" where
  "managerCall (Start op) m = startOperation probeCanceling probeOperation op m"
| "managerCall Finish m = finishOperation probeOperation m"
| "managerCall CancelAll m = cancelOperation probeCanceling m"

definition managerCalls :: "'op ManagerCall list \<Rightarrow> 'op Probe \<Rightarrow> 'op Probe" where
  "managerCalls calls m = fold managerCall calls m"

definition started :: "'op ManagerCall list \<Rightarrow> 'op list" where
  "started calls = concat (map (\<lambda>c. case c of Start op \<Rightarrow> [op] | _ \<Rightarrow> []) calls)"

definition dispatched :: "'op Probe \<Rightarrow> 'op list" where
  "dispatched m = concat (map (\<lambda>i. case i of Operation op \<Rightarrow> [op] | _ \<Rightarrow> []) (invoked m))"

definition queued :: "'op PendingOperationContainer \<Rightarrow> 'op list" where
  "queued container =
     (case container of
        PendingOperationQueue operations \<Rightarrow> operations
      | PendingOperationReplacer operation \<Rightarrow> (case operation of None \<Rightarrow> [] | Some op \<Rightarrow> [op]))"

section \<open>Timer (Timer.h)\<close>

text \<open>
  Time.h is not among the sources: \<^verbatim>\<open>time::Duration\<close> and \<^verbatim>\<open>time::TimePoint\<close> are taken
  as counts of clock ticks, and the value of \<^verbatim>\<open>time::now()\<close> is an argument \<open>now\<close> of the
  functions that read the clock. \<^verbatim>\<open>Timer::AsyncState\<close> holds the
  handler, the duration and the notifier. A user handler is a value of type \<open>'h\<close>; what a
  handler does to the timer when it is called is given by the function \<open>user\<close> that the
  lambdas take as an argument.
\<close>

type_synonym Duration = int
type_synonym TimePoint = int

record 'h TimerState =
  handler :: 'h
  duration :: Duration
  notifier :: FinishedOperationNotifier

text \<open>
  The records that the timer hands to its manager: the callable is
  \<^verbatim>\<open>startTimeoutOperation\<close> or \<^verbatim>\<open>startPeriodicTimeoutOperation\<close>, with the duration and
  the handler as arguments.
\<close>

datatype 'h TimerOperation =
    TimeoutOperation Duration 'h
  | PeriodicTimeoutOperation Duration 'h

text \<open>
  The lambdas given to \<^verbatim>\<open>async_wait\<close>, each with the state it captures; the lambda of
  \<^verbatim>\<open>startPeriodicTimeoutOperation\<close> and the lambda of \<^verbatim>\<open>nextPeriod\<close> have the same body.
\<close>

datatype 'h TimerWait =
    TimeoutWait "'h TimerState"
  | PeriodicWait "'h TimerState"

text \<open>
  The timer: its manager, the \<^verbatim>\<open>boost::asio::basic_waitable_timer\<close> (the expiry, the
  waits not yet completed, and the completed waits that the executor has still to run,
  each with the flag "completed with an error"), and the handlers called so far.
\<close>

record 'h Timer = "'h TimerOperation AsyncOperationManager" +
  expiry :: TimePoint
  waiting :: "'h TimerWait list"
  completed :: "(bool \<times> 'h TimerWait) list"
  timeouts :: "'h list"

text \<open>
  The boost timer: \<^verbatim>\<open>cancel()\<close> completes every outstanding wait with
  \<^verbatim>\<open>operation_aborted\<close>; setting the expiry does the same first; when the clock reaches
  the expiry the outstanding waits complete without error.
\<close>

definition timer_cancel :: "'h Timer \<Rightarrow> 'h Timer" where
  "timer_cancel t = t\<lparr>completed := completed t @ map (Pair True) (waiting t), waiting := []\<rparr>"

definition expires_from_now :: "TimePoint \<Rightarrow> Duration \<Rightarrow> 'h Timer \<Rightarrow> 'h Timer" where
  "expires_from_now now d t = (timer_cancel t)\<lparr>expiry := now + d\<rparr>"

definition expires_at :: "TimePoint \<Rightarrow> 'h Timer \<Rightarrow> 'h Timer" where
  "expires_at tp t = (timer_cancel t)\<lparr>expiry := tp\<rparr>"

definition async_wait :: "'h TimerWait \<Rightarrow> 'h Timer \<Rightarrow> 'h Timer" where
  "async_wait w t = t\<lparr>waiting := waiting t @ [w]\<rparr>"

definition timer_expired :: "'h Timer \<Rightarrow> 'h Timer" where
  "timer_expired t = t\<lparr>completed := completed t @ map (Pair False) (waiting t), waiting := []\<rparr>"

text \<open>\<^verbatim>\<open>Timer::cancelOperation\<close>, the manager's canceling operation.\<close>

definition Timer_cancelOperation :: "'h Timer \<Rightarrow> 'h Timer" where
  "Timer_cancelOperation t = timer_cancel t"

definition startTimeoutOperation :: "TimePoint \<Rightarrow> Duration \<Rightarrow> 'h \<Rightarrow> 'h Timer \<Rightarrow> 'h Timer" where
  "startTimeoutOperation now d h t =
     (let state = \<lparr>handler = h, duration = d, notifier = True\<rparr>
      in async_wait (TimeoutWait state) (expires_from_now now (duration state) t))"

definition startPeriodicTimeoutOperation ::
  "TimePoint \<Rightarrow> Duration \<Rightarrow> 'h \<Rightarrow> 'h Timer \<Rightarrow> 'h Timer" where
  "startPeriodicTimeoutOperation now interval h t =
     (let state = \<lparr>handler = h, duration = interval, notifier = True\<rparr>
      in async_wait (PeriodicWait state) (expires_from_now now (duration state) t))"

fun timerOperation :: "TimePoint \<Rightarrow> 'h TimerOperation \<Rightarrow> 'h Timer \<Rightarrow> 'h Timer" where
  "timerOperation now (TimeoutOperation d h) t = startTimeoutOperation now d h t"
| "timerOperation now (PeriodicTimeoutOperation d h) t = startPeriodicTimeoutOperation now d h t"

definition startTimeout :: "TimePoint \<Rightarrow> Duration \<Rightarrow> 'h \<Rightarrow> 'h Timer \<Rightarrow> 'h Timer" where
  "startTimeout now d h t =
     startOperation Timer_cancelOperation (timerOperation now) (TimeoutOperation d h) t"

definition startPeriodicTimeout :: "TimePoint \<Rightarrow> Duration \<Rightarrow> 'h \<Rightarrow> 'h Timer \<Rightarrow> 'h Timer" where
  "startPeriodicTimeout now interval h t =
     startOperation Timer_cancelOperation (timerOperation now) (PeriodicTimeoutOperation interval h) t"

definition Timer_cancel :: "'h Timer \<Rightarrow> 'h Timer" where
  "Timer_cancel t = cancelOperation Timer_cancelOperation t"

text \<open>
  A lambda that returns without handing its state on drops the last reference to the
  state, whose notifier is then destroyed.
\<close>

definition destroyTimerState :: "TimePoint \<Rightarrow> 'h TimerState \<Rightarrow> 'h Timer \<Rightarrow> 'h Timer" where
  "destroyTimerState now state t = destroyNotifier (timerOperation now) (notifier state) t"

definition callTimeoutHandler :: "('h \<Rightarrow> 'h Timer \<Rightarrow> 'h Timer) \<Rightarrow> 'h \<Rightarrow> 'h Timer \<Rightarrow> 'h Timer" where
  "callTimeoutHandler user h t = user h (t\<lparr>timeouts := timeouts t @ [h]\<rparr>)"

text \<open>The lambda of \<^verbatim>\<open>startTimeoutOperation\<close>.\<close>

definition timeoutLambda ::
  "('h \<Rightarrow> 'h Timer \<Rightarrow> 'h Timer) \<Rightarrow> TimePoint \<Rightarrow> bool \<Rightarrow> 'h TimerState \<Rightarrow> 'h Timer \<Rightarrow> 'h Timer" where
  "timeoutLambda user now error state t =
     (if error \<or> isCanceled t then destroyTimerState now state t
      else
        (let (n, t1) = notify (timerOperation now) (notifier state) t;
             t2 = callTimeoutHandler user (handler state) t1
         in destroyTimerState now (state\<lparr>notifier := n\<rparr>) t2))"

definition nextPeriod :: "TimePoint \<Rightarrow> 'h TimerState \<Rightarrow> 'h Timer \<Rightarrow> 'h Timer" where
  "nextPeriod now state t =
     (if isCanceled t then destroyTimerState now state t
      else async_wait (PeriodicWait state) (expires_at (expiry t + duration state) t))"

text \<open>The lambda of \<^verbatim>\<open>startPeriodicTimeoutOperation\<close> and of \<^verbatim>\<open>nextPeriod\<close>.\<close>

definition periodicLambda ::
  "('h \<Rightarrow> 'h Timer \<Rightarrow> 'h Timer) \<Rightarrow> TimePoint \<Rightarrow> bool \<Rightarrow> 'h TimerState \<Rightarrow> 'h Timer \<Rightarrow> 'h Timer" where
  "periodicLambda user now error state t =
     (if error \<or> isCanceled t then destroyTimerState now state t
      else nextPeriod now state (callTimeoutHandler user (handler state) t))"

text \<open>The executor runs the oldest completed wait.\<close>

fun runWait ::
  "('h \<Rightarrow> 'h Timer \<Rightarrow> 'h Timer) \<Rightarrow> TimePoint \<Rightarrow> bool \<Rightarrow> 'h TimerWait \<Rightarrow> 'h Timer \<Rightarrow> 'h Timer" where
  "runWait user now error (TimeoutWait state) t = timeoutLambda user now error state t"
| "runWait user now error (PeriodicWait state) t = periodicLambda user now error state t"

definition runCompleted :: "('h \<Rightarrow> 'h Timer \<Rightarrow> 'h Timer) \<Rightarrow> TimePoint \<Rightarrow> 'h Timer \<Rightarrow> 'h Timer" where
  "runCompleted user now t =
     (case completed t of
        [] \<Rightarrow> t
      | (error, w) # rest \<Rightarrow> runWait user now error w (t\<lparr>completed := rest\<rparr>))"

text \<open>
  The public operations as calls, and user code that makes a fixed sequence of calls on
  the timer for each handler.
\<close>

datatype 'h TimerCall =
    StartTimeout Duration 'h
  | StartPeriodicTimeout Duration 'h
  | Cancel

fun timerCall :: "TimePoint \<Rightarrow> 'h TimerCall \<Rightarrow> 'h Timer \<Rightarrow> 'h Timer" where
  "timerCall now (StartTimeout d h) t = startTimeout now d h t"
| "timerCall now (StartPeriodicTimeout d h) t = startPeriodicTimeout now d h t"
| "timerCall now Cancel t = Timer_cancel t"

definition timerCalls :: "TimePoint \<Rightarrow> 'h TimerCall list \<Rightarrow> 'h Timer \<Rightarrow> 'h Timer" where
  "timerCalls now calls t = fold (timerCall now) calls t"

definition timerScript ::
  "('h \<Rightarrow> 'h TimerCall list) \<Rightarrow> TimePoint \<Rightarrow> 'h \<Rightarrow> 'h Timer \<Rightarrow> 'h Timer" where
  "timerScript code now h t = timerCalls now (code h) t"

definition newTimer :: "'h Timer" where
  "newTimer =
     \<lparr>pendingOperations = PendingOperationReplacer None, running = False, canceled = False,
      expiry = 0, waiting = [], completed = [], timeouts = []\<rparr>"

section \<open>Components on a socket\<close>

text \<open>
  The datagram receiver, the datagram sender and the service client each consist of a
  manager, a socket, the lambdas that are in flight (handed to an asynchronous
  operation and not yet run), the tasks posted to the context, and, for observation,
  the calls of user handlers made so far with their arguments. The canceling operation
  of each is \<^verbatim>\<open>closeable::Closer<Socket>::close(socket)\<close>.
\<close>

record ('op, 'st, 'call) Component = "'op AsyncOperationManager" +
  socketOpen :: bool
  inFlight :: "'st list"
  posted :: "'call list"
  handlerCalls :: "'call list"

definition newComponent :: "'op PendingOperationContainer \<Rightarrow> ('op, 'st, 'call) Component" where
  "newComponent container =
     \<lparr>pendingOperations = container, running = False, canceled = False,
      socketOpen = False, inFlight = [], posted = [], handlerCalls = []\<rparr>"

text \<open>
  Modelled from the spec: \<^verbatim>\<open>Context::post\<close> (Context.h is not among the sources). The
  executor contract is to post a callable to be executed later: the task is appended to
  the tasks that the executor has still to run, and the call itself runs nothing.
\<close>

definition post :: "'call \<Rightarrow> ('op, 'st, 'call) Component \<Rightarrow> ('op, 'st, 'call) Component" where
  "post task c = c\<lparr>posted := posted c @ [task]\<rparr>"

definition closeSocket :: "('op, 'st, 'call) Component \<Rightarrow> ('op, 'st, 'call) Component" where
  "closeSocket c = c\<lparr>socketOpen := False\<rparr>"

text \<open>\<^verbatim>\<open>setupSocket\<close>: nothing when the socket is open, else it is opened and configured.\<close>

definition setupSocket :: "('op, 'st, 'call) Component \<Rightarrow> ('op, 'st, 'call) Component" where
  "setupSocket c = (if socketOpen c then c else c\<lparr>socketOpen := True\<rparr>)"

type_synonym Endpoint = "string \<times> nat"

section \<open>DatagramReceiver (DatagramReceiver.h)\<close>

text \<open>
  \<^verbatim>\<open>AsyncState\<close> holds the handler and the notifier; the record handed to the manager
  holds the timeout and the handler. The handler's arguments are the error and the
  message with the sender's endpoint, of type \<open>'m\<close>.
\<close>

datatype 'h ReceiverState = ReceiverState 'h FinishedOperationNotifier

datatype 'h ReceiveOperation = ReceiveOperation Duration 'h

type_synonym ('h, 'm) DatagramReceiver =
  "('h ReceiveOperation, 'h ReceiverState, 'h \<times> Error \<times> 'm) Component"

definition asyncReceiveOperation ::
  "Duration \<Rightarrow> 'h \<Rightarrow> ('h, 'm) DatagramReceiver \<Rightarrow> ('h, 'm) DatagramReceiver" where
  "asyncReceiveOperation timeout h r =
     (let r1 = setupSocket r;
          state = ReceiverState h True
      in r1\<lparr>inFlight := inFlight r1 @ [state]\<rparr>)"

fun receiveOperation ::
  "'h ReceiveOperation \<Rightarrow> ('h, 'm) DatagramReceiver \<Rightarrow> ('h, 'm) DatagramReceiver" where
  "receiveOperation (ReceiveOperation timeout h) r = asyncReceiveOperation timeout h r"



definition callReceiveHandler ::
  "('h \<Rightarrow> Error \<Rightarrow> 'm \<Rightarrow> ('h, 'm) DatagramReceiver \<Rightarrow> ('h, 'm) DatagramReceiver) \<Rightarrow>
   'h \<Rightarrow> Error \<Rightarrow> 'm \<Rightarrow> ('h, 'm) DatagramReceiver \<Rightarrow> ('h, 'm) DatagramReceiver" where
  "callReceiveHandler user h error message r =
     user h error message (r\<lparr>handlerCalls := handlerCalls r @ [(h, error, message)]\<rparr>)"

text \<open>The lambda of \<^verbatim>\<open>asyncReceiveOperation\<close>; its state is dropped when it returns.\<close>

fun receiveLambda ::
  "('h \<Rightarrow> Error \<Rightarrow> 'm \<Rightarrow> ('h, 'm) DatagramReceiver \<Rightarrow> ('h, 'm) DatagramReceiver) \<Rightarrow>
   Error \<Rightarrow> 'm \<Rightarrow> 'h ReceiverState \<Rightarrow> ('h, 'm) DatagramReceiver \<Rightarrow> ('h, 'm) DatagramReceiver" where
  "receiveLambda user error message (ReceiverState h finishedNotifier) r =
     (if isCanceled r then destroyNotifier receiveOperation finishedNotifier r
      else
        (let (n, r1) = notify receiveOperation finishedNotifier r;
             r2 = callReceiveHandler user h error message r1
         in destroyNotifier receiveOperation n r2))"




section \<open>DatagramSender (DatagramSender.h)\<close>

text \<open>
  \<^verbatim>\<open>AsyncState\<close> holds the data, the handler and the notifier; the record handed to the
  manager holds the data, the endpoint, the timeout and the handler. The user's encoder
  is the function \<open>encode\<close>, with \<open>None\<close> when it throws.
\<close>

datatype 'h SenderState = SenderState "uint8 list" 'h FinishedOperationNotifier

datatype 'h SendOperation = SendOperation "uint8 list" Endpoint Duration 'h

type_synonym 'h DatagramSender = "('h SendOperation, 'h SenderState, 'h \<times> Error) Component"

definition asyncSendOperation ::
  "uint8 list \<Rightarrow> Endpoint \<Rightarrow> Duration \<Rightarrow> 'h \<Rightarrow> 'h DatagramSender \<Rightarrow> 'h DatagramSender" where
  "asyncSendOperation sendData endpoint timeout h s =
     (let s1 = setupSocket s;
          state = SenderState sendData h True
      in s1\<lparr>inFlight := inFlight s1 @ [state]\<rparr>)"

fun sendOperation :: "'h SendOperation \<Rightarrow> 'h DatagramSender \<Rightarrow> 'h DatagramSender" where
  "sendOperation (SendOperation sendData endpoint timeout h) s =
     asyncSendOperation sendData endpoint timeout h s"

definition asyncSend ::
  "('msg \<Rightarrow> uint8 list option) \<Rightarrow> 'msg \<Rightarrow> Endpoint \<Rightarrow> Duration \<Rightarrow> 'h \<Rightarrow>
   'h DatagramSender \<Rightarrow> 'h DatagramSender" where
  "asyncSend encode message endpoint timeout h s =
     (case encode message of
        None \<Rightarrow> post (h, encoding) s
      | Some sendData \<Rightarrow>
          startOperation closeSocket sendOperation (SendOperation sendData endpoint timeout h) s)"

definition DatagramSender_cancel :: "'h DatagramSender \<Rightarrow> 'h DatagramSender" where
  "DatagramSender_cancel s = cancelOperation closeSocket s"

definition callSendHandler ::
  "('h \<Rightarrow> Error \<Rightarrow> 'h DatagramSender \<Rightarrow> 'h DatagramSender) \<Rightarrow>
   'h \<Rightarrow> Error \<Rightarrow> 'h DatagramSender \<Rightarrow> 'h DatagramSender" where
  "callSendHandler user h error s =
     user h error (s\<lparr>handlerCalls := handlerCalls s @ [(h, error)]\<rparr>)"

text \<open>The lambda of \<^verbatim>\<open>asyncSendOperation\<close>.\<close>

fun sendLambda ::
  "('h \<Rightarrow> Error \<Rightarrow> 'h DatagramSender \<Rightarrow> 'h DatagramSender) \<Rightarrow>
   Error \<Rightarrow> 'h SenderState \<Rightarrow> 'h DatagramSender \<Rightarrow> 'h DatagramSender" where
  "sendLambda user error (SenderState sendData h finishedNotifier) s =
     (let (n, s1) = notify sendOperation finishedNotifier s;
          s2 = callSendHandler user h error s1
      in destroyNotifier sendOperation n s2)"

text \<open>
  The transport completes the oldest send in flight with a boost code and a byte count:
  the completion goes through the wrapper of Closeable.h and the handler of
  \<^verbatim>\<open>socket::asyncSendTo\<close> to the lambda.
\<close>

definition sendCompletes ::
  "('h \<Rightarrow> Error \<Rightarrow> 'h DatagramSender \<Rightarrow> 'h DatagramSender) \<Rightarrow>
   boost_error_code \<Rightarrow> nat \<Rightarrow> 'h DatagramSender \<Rightarrow> 'h DatagramSender" where
  "sendCompletes user code numBytesTransferred s =
     (case inFlight s of
        [] \<Rightarrow> s
      | SenderState sendData h n # rest \<Rightarrow>
          sendLambda user (asyncSendTo_completed sendData (socketOpen s) code numBytesTransferred)
            (SenderState sendData h n) (s\<lparr>inFlight := rest\<rparr>))"

section \<open>ServiceClient (ServiceClient.h)\<close>

text \<open>
  The service gives the encoder of requests (\<open>None\<close> when it throws) and the
  default-constructed response. \<^verbatim>\<open>AsyncState\<close> holds the handler, the data to send, the
  remaining timeout, the start time and the notifier (the receive buffer is left out).
  The record handed to the manager is the argument list of one of the two overloads of
  \<^verbatim>\<open>asyncCallOperation\<close>.
\<close>

record ('req, 'resp) Service =
  encodeRequest :: "'req \<Rightarrow> uint8 list option"
  noResponse :: 'resp

datatype 'h ClientState = ClientState 'h "uint8 list" Duration TimePoint FinishedOperationNotifier

datatype 'h CallOperation =
    CallHost "uint8 list" string nat Duration 'h
  | CallEndpoints "uint8 list" "Endpoint list" Duration 'h

text \<open>
  The stage a call in flight is at: the lambda that will run next, with the state it
  holds. A call made with a host name passes through \<^verbatim>\<open>socket::asyncConnect\<close>, which
  first resolves the name on a resolver of its own and then connects the socket; a
  call made with endpoints connects at once.
\<close>

datatype 'h ClientStage =
    Resolving "'h ClientState"
  | Connecting "'h ClientState"
  | Writing "'h ClientState"
  | Reading "'h ClientState"

type_synonym ('h, 'resp) ServiceClient =
  "('h CallOperation, 'h ClientStage, 'h \<times> Error \<times> 'resp) Component"

text \<open>\<^verbatim>\<open>newSocket\<close> replaces the socket by a fresh one, which is not open.\<close>

definition newSocket :: "('h, 'resp) ServiceClient \<Rightarrow> ('h, 'resp) ServiceClient" where
  "newSocket c = c\<lparr>socketOpen := False\<rparr>"

text \<open>
  \<^verbatim>\<open>socket::asyncConnect\<close> (Socket.h). With a host name it creates a
  \<^verbatim>\<open>CloseableResolver\<close> and starts the timed resolve on that resolver; the socket is not
  touched. With endpoints it starts the timed \<^verbatim>\<open>boost::asio::async_connect\<close> on the
  socket, which opens the socket for the first endpoint (and leaves it as it is when
  there is no endpoint). The lambda of the resolve hands an error to the caller's
  handler and otherwise starts the connect with the endpoints found.
\<close>

definition asyncConnect_host :: "'h ClientState \<Rightarrow> ('h, 'resp) ServiceClient \<Rightarrow> ('h, 'resp) ServiceClient" where
  "asyncConnect_host state c = c\<lparr>inFlight := inFlight c @ [Resolving state]\<rparr>"

definition asyncConnect_endpoints ::
  "Endpoint list \<Rightarrow> 'h ClientState \<Rightarrow> ('h, 'resp) ServiceClient \<Rightarrow> ('h, 'resp) ServiceClient" where
  "asyncConnect_endpoints endpointIterator state c =
     c\<lparr>socketOpen := (if endpointIterator = [] then socketOpen c else True),
       inFlight := inFlight c @ [Connecting state]\<rparr>"


text \<open>Both overloads of \<^verbatim>\<open>asyncCallOperation\<close>; \<open>now\<close> is the value of \<^verbatim>\<open>time::now()\<close>.\<close>

fun asyncCallOperation ::
  "TimePoint \<Rightarrow> 'h CallOperation \<Rightarrow> ('h, 'resp) ServiceClient \<Rightarrow> ('h, 'resp) ServiceClient" where
  "asyncCallOperation now (CallHost sendData host port timeout h) c =
     (let state = ClientState h sendData timeout now True;
          c1 = newSocket c
      in asyncConnect_host state c1)"
| "asyncCallOperation now (CallEndpoints sendData endpointIterator timeout h) c =
     (let state = ClientState h sendData timeout now True;
          c1 = newSocket c
      in asyncConnect_endpoints endpointIterator state c1)"

text \<open>
  \<^verbatim>\<open>ServiceClient::encode\<close>: the data to send, or \<open>None\<close> (the null pointer) after posting
  the task that calls the handler with the encoding error and no response.
\<close>

definition ServiceClient_encode ::
  "('req, 'resp) Service \<Rightarrow> 'req \<Rightarrow> 'h \<Rightarrow> ('h, 'resp) ServiceClient \<Rightarrow>
   uint8 list option \<times> ('h, 'resp) ServiceClient" where
  "ServiceClient_encode service request h c =
     (case encodeRequest service request of
        None \<Rightarrow> (None, post (h, encoding, noResponse service) c)
      | Some sendData \<Rightarrow> (Some sendData, c))"

definition asyncCall ::
  "('req, 'resp) Service \<Rightarrow> TimePoint \<Rightarrow> 'req \<Rightarrow> string \<Rightarrow> nat \<Rightarrow> Duration \<Rightarrow> 'h \<Rightarrow>
   ('h, 'resp) ServiceClient \<Rightarrow> ('h, 'resp) ServiceClient" where
  "asyncCall service now request host port timeout h c =
     (case ServiceClient_encode service request h c of
        (None, c1) \<Rightarrow> c1
      | (Some sendData, c1) \<Rightarrow>
          startOperation closeSocket (asyncCallOperation now)
            (CallHost sendData host port timeout h) c1)"

definition asyncCallEndpoints ::
  "('req, 'resp) Service \<Rightarrow> TimePoint \<Rightarrow> 'req \<Rightarrow> Endpoint list \<Rightarrow> Duration \<Rightarrow> 'h \<Rightarrow>
   ('h, 'resp) ServiceClient \<Rightarrow> ('h, 'resp) ServiceClient" where
  "asyncCallEndpoints service now request endpointIterator timeout h c =
     (case ServiceClient_encode service request h c of
        (None, c1) \<Rightarrow> c1
      | (Some sendData, c1) \<Rightarrow>
          startOperation closeSocket (asyncCallOperation now)
            (CallEndpoints sendData endpointIterator timeout h) c1)"

definition ServiceClient_cancel :: "('h, 'resp) ServiceClient \<Rightarrow> ('h, 'resp) ServiceClient" where
  "ServiceClient_cancel c = cancelOperation closeSocket c"

definition callCallHandler ::
  "('h \<Rightarrow> Error \<Rightarrow> 'resp \<Rightarrow> ('h, 'resp) ServiceClient \<Rightarrow> ('h, 'resp) ServiceClient) \<Rightarrow>
   'h \<Rightarrow> Error \<Rightarrow> 'resp \<Rightarrow> ('h, 'resp) ServiceClient \<Rightarrow> ('h, 'resp) ServiceClient" where
  "callCallHandler user h error response c =
     user h error response (c\<lparr>handlerCalls := handlerCalls c @ [(h, error, response)]\<rparr>)"

text \<open>\<^verbatim>\<open>updateTimeout\<close>: the new timeout and the new start time.\<close>

definition updateTimeout :: "TimePoint \<Rightarrow> Duration \<Rightarrow> TimePoint \<Rightarrow> Duration \<times> TimePoint" where
  "updateTimeout nowTime timeout startTime =
     (let timeSpend = nowTime - startTime
      in (timeout - timeSpend, nowTime))"

text \<open>
  \<^verbatim>\<open>connectHandler\<close>, \<^verbatim>\<open>writeHandler\<close> and the lambda of the receive. On an error the
  first two close the socket, notify and call the handler with no response; otherwise
  they update the timeout and start the next stage on the socket.
\<close>

fun connectHandler ::
  "('req, 'resp) Service \<Rightarrow>
   ('h \<Rightarrow> Error \<Rightarrow> 'resp \<Rightarrow> ('h, 'resp) ServiceClient \<Rightarrow> ('h, 'resp) ServiceClient) \<Rightarrow> TimePoint \<Rightarrow>
   'h ClientState \<Rightarrow> Error \<Rightarrow> ('h, 'resp) ServiceClient \<Rightarrow> ('h, 'resp) ServiceClient" where
  "connectHandler service user now (ClientState h sendData timeout startTime finishedNotifier) error c =
     (if Error_bool error then
        (let c1 = closeSocket c;
             (n, c2) = notify (asyncCallOperation now) finishedNotifier c1;
             c3 = callCallHandler user h error (noResponse service) c2
         in destroyNotifier (asyncCallOperation now) n c3)
      else
        (let (timeout', startTime') = updateTimeout now timeout startTime
         in c\<lparr>inFlight := inFlight c @ [Writing (ClientState h sendData timeout' startTime' finishedNotifier)]\<rparr>))"

fun writeHandler ::
  "('req, 'resp) Service \<Rightarrow>
   ('h \<Rightarrow> Error \<Rightarrow> 'resp \<Rightarrow> ('h, 'resp) ServiceClient \<Rightarrow> ('h, 'resp) ServiceClient) \<Rightarrow> TimePoint \<Rightarrow>
   'h ClientState \<Rightarrow> Error \<Rightarrow> ('h, 'resp) ServiceClient \<Rightarrow> ('h, 'resp) ServiceClient" where
  "writeHandler service user now (ClientState h sendData timeout startTime finishedNotifier) error c =
     (if Error_bool error then
        (let c1 = closeSocket c;
             (n, c2) = notify (asyncCallOperation now) finishedNotifier c1;
             c3 = callCallHandler user h error (noResponse service) c2
         in destroyNotifier (asyncCallOperation now) n c3)
      else
        (let (timeout', startTime') = updateTimeout now timeout startTime
         in c\<lparr>inFlight := inFlight c @ [Reading (ClientState h sendData timeout' startTime' finishedNotifier)]\<rparr>))"

fun readLambda ::
  "('h \<Rightarrow> Error \<Rightarrow> 'resp \<Rightarrow> ('h, 'resp) ServiceClient \<Rightarrow> ('h, 'resp) ServiceClient) \<Rightarrow> TimePoint \<Rightarrow>
   'h ClientState \<Rightarrow> Error \<Rightarrow> 'resp \<Rightarrow> ('h, 'resp) ServiceClient \<Rightarrow> ('h, 'resp) ServiceClient" where
  "readLambda user now (ClientState h sendData timeout startTime finishedNotifier) error response c =
     (let c1 = closeSocket c;
          (n, c2) = notify (asyncCallOperation now) finishedNotifier c1;
          c3 = callCallHandler user h error response c2
      in destroyNotifier (asyncCallOperation now) n c3)"





text \<open>The executor runs the oldest posted task, which calls the handler.\<close>

definition runPosted ::
  "('h \<Rightarrow> Error \<Rightarrow> 'resp \<Rightarrow> ('h, 'resp) ServiceClient \<Rightarrow> ('h, 'resp) ServiceClient) \<Rightarrow>
   ('h, 'resp) ServiceClient \<Rightarrow> ('h, 'resp) ServiceClient" where
  "runPosted user c =
     (case posted c of
        [] \<Rightarrow> c
      | (h, error, response) # rest \<Rightarrow> callCallHandler user h error response (c\<lparr>posted := rest\<rparr>))"

section \<open>Properties of errors, frames and framed transfers\<close>

lemmas codes_defs =
  codes_success_def codes_failedOperation_def codes_aborted_def
  codes_encoding_def codes_decoding_def codes_invalidFrame_def

lemmas Error_consts =
  success_def failedOperation_def aborted_def encoding_def decoding_def invalidFrame_def

lemma mask8: "(0xff :: uint32) = mask 8"
  by (simp add: mask_eq_exp_minus_1)

lemma ucast_byte: "(ucast (ucast (x AND 0xff :: uint32) :: uint8) :: uint32) = x AND mask 8"
  unfolding mask8 by (rule bit_word_eqI) (auto simp: bit_simps)

lemma bytes_or:
  "(push_bit 24 (drop_bit 24 n AND mask 8) OR push_bit 16 (drop_bit 16 n AND mask 8)
    OR push_bit 8 (drop_bit 8 n AND mask 8) OR (n AND mask 8) :: uint32) = n"
proof (rule bit_word_eqI)
  fix m assume m: "m < LENGTH(32)"
  consider "m < 8" | "8 \<le> m" "m < 16" | "16 \<le> m" "m < 24" | "24 \<le> m" by linarith
  then show "bit (push_bit 24 (drop_bit 24 n AND mask 8) OR push_bit 16 (drop_bit 16 n AND mask 8)
      OR push_bit 8 (drop_bit 8 n AND mask 8) OR (n AND mask 8)) m = bit n m"
    using m by cases (auto simp: bit_simps)
qed

lemma bytes_sum:
  "(push_bit 24 (drop_bit 24 n AND mask 8) + push_bit 16 (drop_bit 16 n AND mask 8)
    + push_bit 8 (drop_bit 8 n AND mask 8) + (n AND mask 8) :: uint32) = n"
proof -
  let ?a = "push_bit 24 (drop_bit 24 n AND mask 8) :: uint32"
  let ?b = "push_bit 16 (drop_bit 16 n AND mask 8) :: uint32"
  let ?c = "push_bit 8 (drop_bit 8 n AND mask 8) :: uint32"
  let ?d = "n AND mask 8 :: uint32"
  have 1: "?a + ?b = (?a OR ?b)"
    by (rule disjunctive_add_eq_or, rule bit_word_eqI) (auto simp: bit_simps)
  have 2: "(?a OR ?b) + ?c = (?a OR ?b OR ?c)"
    by (simp only: or.assoc [symmetric], rule disjunctive_add_eq_or, rule bit_word_eqI)
      (auto simp: bit_simps)
  have 3: "(?a OR ?b OR ?c) + ?d = (?a OR ?b OR ?c OR ?d)"
    by (simp only: or.assoc [symmetric], rule disjunctive_add_eq_or, rule bit_word_eqI)
      (auto simp: bit_simps)
  show ?thesis
    by (simp only: 1 2 3 bytes_or)
qed

lemma toBigEndian_4:
  "toBigEndian 4 n =
     [ucast (drop_bit 24 n AND 0xff), ucast (drop_bit 16 n AND 0xff),
      ucast (drop_bit 8 n AND 0xff), ucast (n AND 0xff)]"
  by (simp add: toBigEndian_def numeral_eq_Suc Let_def)

lemma fromBigEndian_4:
  "fromBigEndian 4 (a # b # c # d # rest) =
     Some (push_bit 24 (ucast a) + push_bit 16 (ucast b) + push_bit 8 (ucast c) + ucast d)"
  by (simp add: fromBigEndian_def numeral_eq_Suc Let_def)

lemma fromBigEndian_toBigEndian: "fromBigEndian 4 (toBigEndian 4 n @ rest) = Some n"
proof -
  have "fromBigEndian 4 (toBigEndian 4 n @ rest) =
      Some (push_bit 24 (drop_bit 24 n AND mask 8) + push_bit 16 (drop_bit 16 n AND mask 8)
        + push_bit 8 (drop_bit 8 n AND mask 8) + (n AND mask 8))"
    unfolding toBigEndian_4 by (simp only: append_Cons append_Nil fromBigEndian_4 ucast_byte)
  then show ?thesis by (simp only: bytes_sum)
qed

lemma length_toBigEndian_loop: "length (toBigEndian_loop k b src) = k"
  by (induction k arbitrary: b) (simp_all add: Let_def)

lemma length_toBigEndian: "length (toBigEndian k src) = k"
  by (simp add: toBigEndian_def length_toBigEndian_loop)

lemma unat_length: "length p < 2 ^ 32 \<Longrightarrow> unat (of_nat (length p) :: uint32) = length p"
  by (simp add: unat_of_nat)

lemma numDataBytes_frameOf: "numDataBytes (frameOf p) = of_nat (length p)"
  by (simp add: frameOf_def Frame_new_def Let_def)

lemma getSize_frameOf: "length p < 2 ^ 32 \<Longrightarrow> getSize (frameOf p) = 4 + length p"
  by (simp add: getSize_def numDataBytes_frameOf unat_length)

lemma wireBytes_frameOf:
  "length p < 2 ^ 32 \<Longrightarrow> wireBytes (frameOf p) = toBigEndian 4 (of_nat (length p)) @ p"
  by (simp add: wireBytes_def getBuffers_def frameOf_def Frame_new_def Let_def unat_length)

lemma receiveDatagram_frame:
  assumes "length p \<le> maxMessageSize" and "length p < 2 ^ 32"
    and "length buffer = maxMessageSize + HEADER_SIZE"
  shows "receiveDatagram buffer (wireBytes (frameOf p)) = (success, Some p)"
proof -
  let ?h = "toBigEndian 4 (of_nat (length p) :: uint32)"
  let ?rest = "drop (4 + length p) buffer"
  have w: "wireBytes (frameOf p) = ?h @ p"
    using assms(2) by (rule wireBytes_frameOf)
  have len: "length (?h @ p) = 4 + length p"
    by (simp add: length_toBigEndian)
  have r: "receiveInto buffer (?h @ p) = (?h @ (p @ ?rest), 4 + length p)"
    using assms(1,3) by (simp add: receiveInto_def Let_def length_toBigEndian HEADER_SIZE_def min_def)
  have n: "socket_numDataBytesFromBuffer (?h @ (p @ ?rest)) (4 + length p) = Some (length p)"
    using assms(2)
    by (simp add: socket_numDataBytesFromBuffer_def fromBigEndian_toBigEndian unat_length)
  have v: "ConstVectorBuffer (?h @ (p @ ?rest)) (length p) HEADER_SIZE = Some p"
    by (simp add: ConstVectorBuffer_def HEADER_SIZE_def length_toBigEndian)
  have e: "completionError True 0 = success" "\<not> Error_bool success"
    by (simp_all add: completionError_def Error_bool_def success_def codes_success_def)
  show ?thesis
    unfolding receiveDatagram_def w r by (simp add: asyncReceiveFrom_handler_def e n v)
qed

lemma readFrame_frame:
  assumes "length p \<le> maxMessageSize" and "length p < 2 ^ 32"
  shows "readFrame maxMessageSize (wireBytes (frameOf p)) = Some (success, Some p)"
proof -
  let ?h = "toBigEndian 4 (of_nat (length p) :: uint32)"
  have w: "wireBytes (frameOf p) = ?h @ p"
    using assms(2) by (rule wireBytes_frameOf)
  have e: "completionError True 0 = success" "\<not> Error_bool success"
    by (simp_all add: completionError_def Error_bool_def success_def codes_success_def)
  have t1: "transferExactly (?h @ p) (maxMessageSize + HEADER_SIZE) HEADER_SIZE = (4, 0)"
    by (simp add: transferExactly_def Let_def HEADER_SIZE_def length_toBigEndian)
  have nb: "stream_numDataBytesFromBuffer ?h = Some (of_nat (length p))"
    using fromBigEndian_toBigEndian [of "of_nat (length p)" "[]"]
    by (simp add: stream_numDataBytesFromBuffer_def HEADER_SIZE_def length_toBigEndian)
  show ?thesis
  proof (cases "p = []")
    case True
    have nb0: "stream_numDataBytesFromBuffer (toBigEndian 4 0) = Some 0"
      using nb True by simp
    have h0: "asyncRead_headerHandler (toBigEndian 4 0) success 4 = Some (Finished success (Some []) 4)"
      by (simp add: asyncRead_headerHandler_def e nb0 HEADER_SIZE_def ConstStreamBuffer_def)
    show ?thesis
      unfolding w readFrame_def Let_def t1
      using True by (simp add: length_toBigEndian e h0)
  next
    case False
    then have nz: "(of_nat (length p) :: uint32) \<noteq> 0"
      using assms(2) unat_length [OF assms(2)] by (metis length_0_conv unat_0)
    have h: "asyncRead_headerHandler ?h success 4 = Some (ReadData (of_nat (length p)))"
      by (simp add: asyncRead_headerHandler_def e nb nz HEADER_SIZE_def)
    have t2: "transferExactly p (maxMessageSize + HEADER_SIZE - 4) (unat (of_nat (length p) :: uint32))
        = (length p, 0)"
      using assms by (simp add: transferExactly_def Let_def HEADER_SIZE_def unat_length min_def)
    have d: "asyncRead_dataHandler (?h @ p) (of_nat (length p)) success (length p)
        = (success, Some p, HEADER_SIZE + length p)"
      using assms(2)
      by (simp add: asyncRead_dataHandler_def e unat_length ConstStreamBuffer_def HEADER_SIZE_def
          length_toBigEndian)
    show ?thesis
      unfolding w readFrame_def Let_def t1
      by (simp add: length_toBigEndian e h t2 d)
  qed
qed

text \<open>
  C10. Two errors are equal exactly when their kinds are equal, and unequal exactly when
  the kinds differ; the attached transport code plays no part, so replacing it on either
  side changes neither result. An error converts to true exactly when its kind is not
  success, and the aborted kind with any transport code attached equals the constant
  \<open>aborted\<close>.
\<close>

theorem Error_equality_ignores_boostCode:
  "Error_eq a b = (asionetCode a = asionetCode b)
   \<and> Error_neq a b = (asionetCode a \<noteq> asionetCode b)
   \<and> Error_eq (a\<lparr>boostCode := c\<rparr>) (b\<lparr>boostCode := d\<rparr>) = Error_eq a b
   \<and> Error_neq (a\<lparr>boostCode := c\<rparr>) (b\<lparr>boostCode := d\<rparr>) = Error_neq a b
   \<and> Error_bool a = (asionetCode a \<noteq> codes_success)
   \<and> Error_eq \<lparr>asionetCode = codes_aborted, boostCode = c\<rparr> aborted
   \<and> \<not> Error_neq \<lparr>asionetCode = codes_aborted, boostCode = c\<rparr> aborted"
  by (simp add: Error_eq_def Error_neq_def Error_bool_def codes_success_def aborted_def)

text \<open>
  C3. The completion lambda of \<^verbatim>\<open>timedAsyncOperation\<close> disarms the timer and calls the
  wrapped handler exactly once, with an error computed from the handle's state at that
  moment: the error is aborted exactly when the handle is not open; with the handle
  open it is failedOperation carrying the boost code when that code is set, and success
  when it is not. A completion that runs after the timeout lambda is aborted.
\<close>

theorem timedAsyncOperation_error:
  "handlerErrors (timedAsyncOperation_completion code t) = handlerErrors t @ [completionError (is_open t) code]
   \<and> \<not> timerArmed (timedAsyncOperation_completion code t)
   \<and> Error_eq (completionError isOpen code) aborted = (\<not> isOpen)
   \<and> completionError False code = aborted
   \<and> completionError True code =
       (if code \<noteq> 0 then \<lparr>asionetCode = codes_failedOperation, boostCode = code\<rparr> else success)
   \<and> Error_eq (completionError True code) (if code \<noteq> 0 then failedOperation else success)
   \<and> last (handlerErrors (timedAsyncOperation_completion code (timedAsyncOperation_timeout t))) = aborted"
  by (simp add: timedAsyncOperation_completion_def completionError_def timedAsyncOperation_timeout_def Let_def Error_eq_def
      Error_consts codes_defs)

text \<open>
  C5. A payload no longer than \<open>maxMessageSize\<close> and shorter than \<open>2^32\<close> bytes, framed by
  the writers, is returned unchanged and without error by the datagram receiver (with
  its buffer of \<open>maxMessageSize + HEADER_SIZE\<close> bytes) and by the stream reader; the
  big-endian header decodes to the number it encodes, for every 32-bit number; and the
  frame's size, which is also the number of bytes on the wire, is 4 plus the payload
  length.
\<close>

theorem frame_roundtrip:
  assumes "length p \<le> maxMessageSize" and "length p < 2 ^ 32"
    and "length buffer = maxMessageSize + HEADER_SIZE"
  shows "receiveDatagram buffer (wireBytes (frameOf p)) = (success, Some p)
    \<and> readFrame maxMessageSize (wireBytes (frameOf p)) = Some (success, Some p)
    \<and> fromBigEndian 4 (toBigEndian 4 n) = Some n
    \<and> getSize (frameOf p) = 4 + length p
    \<and> length (wireBytes (frameOf p)) = 4 + length p"
proof -
  have "fromBigEndian 4 (toBigEndian 4 n) = Some n"
    using fromBigEndian_toBigEndian [of n "[]"] by simp
  moreover have "length (wireBytes (frameOf p)) = 4 + length p"
    using assms(2) by (simp add: wireBytes_frameOf length_toBigEndian)
  ultimately show ?thesis
    using assms receiveDatagram_frame [of p maxMessageSize buffer]
      readFrame_frame [of p maxMessageSize] getSize_frameOf [of p]
    by simp
qed

theorem frame_roundtrip_witness:
  "receiveDatagram (replicate 9 0) (wireBytes (frameOf [65, 66, 67])) = (success, Some [65, 66, 67])
    \<and> readFrame 5 (wireBytes (frameOf [65, 66, 67])) = Some (success, Some [65, 66, 67])
    \<and> fromBigEndian 4 (toBigEndian 4 258) = Some 258
    \<and> getSize (frameOf [65, 66, 67]) = 7
    \<and> length (wireBytes (frameOf [65, 66, 67])) = 7"
  using frame_roundtrip [of "[65, 66, 67]" 5 "replicate 9 0" 258]
  by (simp add: HEADER_SIZE_def)

text \<open>
  C6 as the code has it. For a payload shorter than \<open>2^32\<close> bytes, so that the frame size
  is 4 plus the payload length: a completed framed write on a stream, and a completed
  framed send on a datagram socket, hands failedOperation to the handler when fewer
  bytes than the frame size were transferred; otherwise it hands on the error that the
  wrapper of Closeable.h computed, which is aborted when the handle is no longer open,
  failedOperation with the transport code when that is set, and success only when the
  handle is open and the transport reported no error.
\<close>

theorem framed_write_result:
  assumes "length d < 2 ^ 32"
  shows "asyncWrite_completed d isOpen code n =
           (if n < 4 + length d then failedOperation else completionError isOpen code)
    \<and> asyncSendTo_completed d isOpen code n =
           (if n < 4 + length d then failedOperation else completionError isOpen code)
    \<and> Error_eq (completionError isOpen code) success = (isOpen \<and> code = 0)"
  using assms
  by (simp add: asyncWrite_completed_def asyncWrite_handler_def asyncSendTo_completed_def
      asyncSendTo_handler_def getSize_frameOf completionError_def Error_eq_def Error_consts
      codes_defs)

theorem framed_write_result_witness:
  "asyncWrite_completed [1, 2, 3] True 0 7 = success
    \<and> asyncSendTo_completed [1, 2, 3] True 0 6 = failedOperation
    \<and> Error_eq (completionError True 0) success"
  using framed_write_result [of "[1, 2, 3]" True 0 7] framed_write_result [of "[1, 2, 3]" True 0 6]
  by (simp add: completionError_def)

text \<open>
  The claim C6 as stated fails: the whole frame (7 bytes for a payload of 3) is
  transferred without a transport error, but the handle has been closed before the
  completion runs; the handler receives aborted, which is not success.
\<close>

theorem framed_write_counterexample:
  "\<not> (7 < getSize (frameOf [1, 2, 3]))
    \<and> asyncWrite_completed [1, 2, 3] False 0 7 = aborted
    \<and> asyncSendTo_completed [1, 2, 3] False 0 7 = aborted
    \<and> \<not> Error_eq aborted success"
  by (simp add: asyncWrite_completed_def asyncWrite_handler_def asyncSendTo_completed_def
      asyncSendTo_handler_def getSize_def frameOf_def Frame_new_def Let_def completionError_def
      Error_eq_def Error_consts codes_defs)

section \<open>Properties of the operation manager\<close>

lemma startOperation_probe:
  "startOperation probeCanceling probeOperation op m =
     (if \<not> running m then m\<lparr>running := True, invoked := invoked m @ [Operation op]\<rparr>
      else if shouldCancel (pendingOperations m)
        then m\<lparr>pendingOperations := pushPendingOperation op (pendingOperations m),
               invoked := invoked m @ [CancelingOperation]\<rparr>
      else m\<lparr>pendingOperations := pushPendingOperation op (pendingOperations m)\<rparr>)"
  by (simp add: startOperation_def probeOperation_def probeCanceling_def Let_def)

lemma queued_push:
  "queued (pushPendingOperation op pc) = (if shouldCancel pc then [op] else queued pc @ [op])"
  by (cases pc) (simp_all add: queued_def)

text \<open>
  C1. \<^verbatim>\<open>startOperation\<close> on a manager that is not running invokes the operation on the
  state in which only \<open>running\<close> has been set, so the pending container is as it was
  and the canceling operation is not called. On a running manager it calls the
  canceling operation (on the state as it was) exactly when the container's
  \<open>shouldCancel\<close> is true, that is for the replacer and not for the queue, then pushes
  the record into the container, and does not invoke the operation. After the push the
  record is in the container: it is the last of the queue, whose earlier records are
  kept in order, and it is the one record of the replacer, where it is also the next
  to be dispatched. Observed on a manager whose callables only record their
  invocation: the invocations added are the operation alone, the canceling operation
  alone, or none; the container is untouched or holds the record as said; \<open>running\<close>
  is true afterwards and \<open>canceled\<close> is unchanged.
\<close>

theorem startOperation_behaviour:
  "startOperation c a op m =
     (if \<not> running m then a op (m\<lparr>running := True\<rparr>)
      else if shouldCancel (pendingOperations m)
        then (c m)\<lparr>pendingOperations := pushPendingOperation op (pendingOperations (c m))\<rparr>
      else m\<lparr>pendingOperations := pushPendingOperation op (pendingOperations m)\<rparr>)
   \<and> invoked (startOperation probeCanceling probeOperation op p) =
       invoked p @ (if \<not> running p then [Operation op]
                    else if shouldCancel (pendingOperations p) then [CancelingOperation] else [])
   \<and> invoked (startOperation probeCanceling probeOperation op p) =
       invoked p @ (if \<not> running p then [Operation op]
                    else case pendingOperations p of
                           PendingOperationQueue operations \<Rightarrow> []
                         | PendingOperationReplacer operation \<Rightarrow> [CancelingOperation])
   \<and> pendingOperations (startOperation probeCanceling probeOperation op p) =
       (if \<not> running p then pendingOperations p
        else case pendingOperations p of
               PendingOperationQueue operations \<Rightarrow> PendingOperationQueue (operations @ [op])
             | PendingOperationReplacer operation \<Rightarrow> PendingOperationReplacer (Some op))
   \<and> running (startOperation probeCanceling probeOperation op p)
   \<and> canceled (startOperation probeCanceling probeOperation op p) = canceled p
   \<and> pushPendingOperation op (PendingOperationQueue operations)
       = PendingOperationQueue (operations @ [op])
   \<and> pushPendingOperation op (PendingOperationReplacer operation)
       = PendingOperationReplacer (Some op)
   \<and> getPendingOperation (pushPendingOperation op (PendingOperationReplacer operation)) = Some op
   \<and> getPendingOperation (pushPendingOperation op (PendingOperationQueue [])) = Some op
   \<and> hasPendingOperation (pushPendingOperation op pc)
   \<and> queued (pushPendingOperation op pc) = (if shouldCancel pc then [op] else queued pc @ [op])
   \<and> shouldCancel (PendingOperationReplacer operation)
   \<and> \<not> shouldCancel (PendingOperationQueue operations)"
proof -
  have 1: "startOperation c a op m =
     (if \<not> running m then a op (m\<lparr>running := True\<rparr>)
      else if shouldCancel (pendingOperations m)
        then (c m)\<lparr>pendingOperations := pushPendingOperation op (pendingOperations (c m))\<rparr>
      else m\<lparr>pendingOperations := pushPendingOperation op (pendingOperations m)\<rparr>)"
    by (simp add: startOperation_def Let_def)
  have 2: "invoked (startOperation probeCanceling probeOperation op p) =
       invoked p @ (if \<not> running p then [Operation op]
                    else if shouldCancel (pendingOperations p) then [CancelingOperation] else [])"
    by (simp add: startOperation_probe)
  have 3: "invoked (startOperation probeCanceling probeOperation op p) =
       invoked p @ (if \<not> running p then [Operation op]
                    else case pendingOperations p of
                           PendingOperationQueue operations \<Rightarrow> []
                         | PendingOperationReplacer operation \<Rightarrow> [CancelingOperation])"
    by (cases "pendingOperations p") (simp_all add: startOperation_probe)
  have 4: "pendingOperations (startOperation probeCanceling probeOperation op p) =
       (if \<not> running p then pendingOperations p
        else case pendingOperations p of
               PendingOperationQueue operations \<Rightarrow> PendingOperationQueue (operations @ [op])
             | PendingOperationReplacer operation \<Rightarrow> PendingOperationReplacer (Some op))"
    by (cases "pendingOperations p") (simp_all add: startOperation_probe)
  have 5: "running (startOperation probeCanceling probeOperation op p)"
    "canceled (startOperation probeCanceling probeOperation op p) = canceled p"
    by (simp_all add: startOperation_probe)
  have 6: "hasPendingOperation (pushPendingOperation op pc)"
    by (cases pc) simp_all
  show ?thesis
    by (intro conjI) (rule 1 2 3 4 5 6 queued_push | simp)+
qed

theorem startOperation_behaviour_witness:
  "startOperation probeCanceling probeOperation (2::nat)
       \<lparr>pendingOperations = PendingOperationReplacer (Some 1), running = True, canceled = False,
        invoked = []\<rparr>
     = \<lparr>pendingOperations = PendingOperationReplacer (Some 2), running = True, canceled = False,
        invoked = [CancelingOperation]\<rparr>
   \<and> pendingOperations (startOperation probeCanceling probeOperation (3::nat)
       \<lparr>pendingOperations = PendingOperationQueue [1, 2], running = True, canceled = False,
        invoked = []\<rparr>) = PendingOperationQueue [1, 2, 3]
   \<and> invoked (startOperation probeCanceling probeOperation (3::nat)
       \<lparr>pendingOperations = PendingOperationQueue [1, 2], running = True, canceled = False,
        invoked = []\<rparr>) = []
   \<and> startOperation probeCanceling probeOperation (1::nat) (newProbe (PendingOperationQueue []))
     = \<lparr>pendingOperations = PendingOperationQueue [], running = True, canceled = False,
        invoked = [Operation 1]\<rparr>"
proof -
  let ?r = "\<lparr>pendingOperations = PendingOperationReplacer (Some (1::nat)), running = True,
      canceled = False, invoked = []\<rparr>"
  let ?q = "\<lparr>pendingOperations = PendingOperationQueue [1::nat, 2], running = True,
      canceled = False, invoked = []\<rparr>"
  note r = startOperation_behaviour [where c = probeCanceling and a = probeOperation and op = "2::nat"
      and m = ?r, THEN conjunct1]
  note q = startOperation_behaviour [where op = "3::nat" and p = ?q]
  note n = startOperation_behaviour [where c = probeCanceling and a = probeOperation and op = "1::nat"
      and m = "newProbe (PendingOperationQueue [])", THEN conjunct1]
  have 1: "startOperation probeCanceling probeOperation (2::nat) ?r
     = \<lparr>pendingOperations = PendingOperationReplacer (Some 2), running = True, canceled = False,
        invoked = [CancelingOperation]\<rparr>"
    unfolding r by (simp add: probeCanceling_def)
  have 2: "pendingOperations (startOperation probeCanceling probeOperation (3::nat) ?q)
      = PendingOperationQueue [1, 2, 3]"
    using q [THEN conjunct2, THEN conjunct2, THEN conjunct2, THEN conjunct1] by simp
  have 3: "invoked (startOperation probeCanceling probeOperation (3::nat) ?q) = []"
    using q [THEN conjunct2, THEN conjunct2, THEN conjunct1] by simp
  have 4: "startOperation probeCanceling probeOperation (1::nat) (newProbe (PendingOperationQueue []))
     = \<lparr>pendingOperations = PendingOperationQueue [], running = True, canceled = False,
        invoked = [Operation 1]\<rparr>"
    unfolding n by (simp add: newProbe_def probeOperation_def)
  show ?thesis
    by (intro conjI) (rule 1 2 3 4)+
qed

lemma finishOperation_queue:
  "pendingOperations m = PendingOperationQueue q \<Longrightarrow>
   finishOperation probeOperation m =
     (case q of
        [] \<Rightarrow> m\<lparr>canceled := False, running := False\<rparr>
      | op # rest \<Rightarrow> m\<lparr>canceled := False, pendingOperations := PendingOperationQueue rest,
                       invoked := invoked m @ [Operation op]\<rparr>)"
  by (cases q) (simp_all add: finishOperation_def probeOperation_def Let_def)

lemma dispatched_simps [simp]:
  "dispatched (m\<lparr>invoked := invoked m @ [Operation op]\<rparr>) = dispatched m @ [op]"
  "dispatched (m\<lparr>invoked := invoked m @ [CancelingOperation]\<rparr>) = dispatched m"
  "dispatched (m\<lparr>running := r\<rparr>) = dispatched m"
  "dispatched (m\<lparr>canceled := c\<rparr>) = dispatched m"
  "dispatched (m\<lparr>pendingOperations := pc\<rparr>) = dispatched m"
  by (simp_all add: dispatched_def)

lemma queue_invariant:
  assumes "pendingOperations m = PendingOperationQueue q" and "running m \<or> q = []"
    and "CancelAll \<notin> set calls"
  shows "\<exists>q'. pendingOperations (managerCalls calls m) = PendingOperationQueue q'
      \<and> (running (managerCalls calls m) \<or> q' = [])
      \<and> dispatched (managerCalls calls m) @ q' = dispatched m @ q @ started calls"
  using assms
proof (induction calls arbitrary: m q)
  case Nil
  then show ?case by (simp add: managerCalls_def started_def)
next
  case (Cons c calls)
  have st: "started (c # calls) = started [c] @ started calls"
    by (simp add: started_def)
  have mc: "managerCalls (c # calls) m = managerCalls calls (managerCall c m)"
    by (simp add: managerCalls_def)
  from Cons.prems(3) have nc: "CancelAll \<notin> set calls" "c \<noteq> CancelAll" by auto
  show ?case
  proof (cases c)
    case (Start op)
    show ?thesis
    proof (cases "running m")
      case True
      let ?m1 = "managerCall c m"
      have p1: "pendingOperations ?m1 = PendingOperationQueue (q @ [op])" "running ?m1"
        "dispatched ?m1 = dispatched m"
        using True Cons.prems(1) Start by (simp_all add: startOperation_probe dispatched_def)
      from Cons.IH [OF p1(1) _ nc(1)] p1(2)
      obtain q' where "pendingOperations (managerCalls calls ?m1) = PendingOperationQueue q'"
        "running (managerCalls calls ?m1) \<or> q' = []"
        "dispatched (managerCalls calls ?m1) @ q' = dispatched ?m1 @ (q @ [op]) @ started calls"
        by blast
      then show ?thesis
        unfolding mc st using p1(3) Start by (auto simp: started_def)
    next
      case False
      let ?m1 = "managerCall c m"
      from False Cons.prems(2) have q: "q = []" by simp
      have p1: "pendingOperations ?m1 = PendingOperationQueue []" "running ?m1"
        "dispatched ?m1 = dispatched m @ [op]"
        using False Cons.prems(1) Start q by (simp_all add: startOperation_probe dispatched_def)
      from Cons.IH [OF p1(1) _ nc(1)] p1(2)
      obtain q' where "pendingOperations (managerCalls calls ?m1) = PendingOperationQueue q'"
        "running (managerCalls calls ?m1) \<or> q' = []"
        "dispatched (managerCalls calls ?m1) @ q' = dispatched ?m1 @ [] @ started calls"
        by blast
      then show ?thesis
        unfolding mc st using p1(3) Start q by (auto simp: started_def)
    qed
  next
    case Finish
    let ?m1 = "managerCall c m"
    show ?thesis
    proof (cases q)
      case Nil
      have p1: "pendingOperations ?m1 = PendingOperationQueue []"
        "dispatched ?m1 = dispatched m"
        using Cons.prems(1) Finish Nil by (simp_all add: finishOperation_queue dispatched_def)
      from Cons.IH [OF p1(1) _ nc(1)]
      obtain q' where "pendingOperations (managerCalls calls ?m1) = PendingOperationQueue q'"
        "running (managerCalls calls ?m1) \<or> q' = []"
        "dispatched (managerCalls calls ?m1) @ q' = dispatched ?m1 @ [] @ started calls"
        by blast
      then show ?thesis
        unfolding mc st using p1(2) Finish Nil by (auto simp: started_def)
    next
      case (Cons op rest)
      with Cons.prems(2) have r: "running m" by simp
      have p1: "pendingOperations ?m1 = PendingOperationQueue rest" "running ?m1"
        "dispatched ?m1 = dispatched m @ [op]"
        using Cons.prems(1) Finish Cons r by (simp_all add: finishOperation_queue dispatched_def)
      from Cons.IH [OF p1(1) _ nc(1)] p1(2)
      obtain q' where "pendingOperations (managerCalls calls ?m1) = PendingOperationQueue q'"
        "running (managerCalls calls ?m1) \<or> q' = []"
        "dispatched (managerCalls calls ?m1) @ q' = dispatched ?m1 @ rest @ started calls"
        by blast
      then show ?thesis
        unfolding mc st using p1(3) Finish Cons by (auto simp: started_def)
    qed
  next
    case CancelAll
    with nc show ?thesis by simp
  qed
qed

lemma starts_queue:
  "pendingOperations m = PendingOperationQueue q \<Longrightarrow> running m \<Longrightarrow>
   managerCalls (map Start ops) m = m\<lparr>pendingOperations := PendingOperationQueue (q @ ops)\<rparr>"
proof (induction ops arbitrary: m q)
  case Nil
  then show ?case by (simp add: managerCalls_def)
next
  case (Cons op ops)
  let ?m1 = "m\<lparr>pendingOperations := PendingOperationQueue (q @ [op])\<rparr>"
  have 1: "managerCall (Start op) m = ?m1"
    using Cons.prems by (simp add: startOperation_probe)
  have "managerCalls (map Start ops) ?m1 = ?m1\<lparr>pendingOperations := PendingOperationQueue ((q @ [op]) @ ops)\<rparr>"
    by (rule Cons.IH) (use Cons.prems in simp_all)
  then show ?case
    using 1 by (simp add: managerCalls_def)
qed

lemma finishes_queue:
  "pendingOperations m = PendingOperationQueue q \<Longrightarrow>
   dispatched (managerCalls (replicate k Finish) m) = dispatched m @ take k q"
proof (induction k arbitrary: m q)
  case 0
  then show ?case by (simp add: managerCalls_def)
next
  case (Suc k)
  show ?case
  proof (cases q)
    case Nil
    let ?m1 = "m\<lparr>canceled := False, running := False\<rparr>"
    have 1: "managerCall Finish m = ?m1" using Suc.prems Nil by (simp add: finishOperation_queue)
    have "dispatched (managerCalls (replicate k Finish) ?m1) = dispatched ?m1 @ take k []"
      by (rule Suc.IH) (use Suc.prems Nil in simp)
    then show ?thesis using 1 Nil by (simp add: managerCalls_def)
  next
    case (Cons op rest)
    let ?m1 = "m\<lparr>canceled := False, pendingOperations := PendingOperationQueue rest,
                       invoked := invoked m @ [Operation op]\<rparr>"
    have 1: "managerCall Finish m = ?m1" using Suc.prems Cons by (simp add: finishOperation_queue)
    have "dispatched (managerCalls (replicate k Finish) ?m1) = dispatched ?m1 @ take k rest"
      by (rule Suc.IH) simp
    then show ?thesis using 1 Cons by (simp add: managerCalls_def dispatched_def)
  qed
qed

text \<open>
  C2. On a running manager with the queue policy, after any sequence of
  \<^verbatim>\<open>startOperation\<close> calls, \<open>k\<close> successive \<^verbatim>\<open>finishOperation\<close> calls dispatch exactly
  the first \<open>k\<close> queued records in the order in which they were pushed, and nothing
  beyond the records queued. More generally, for every interleaving of
  \<^verbatim>\<open>startOperation\<close> and \<^verbatim>\<open>finishOperation\<close> calls, the records dispatched so far
  followed by the records still queued are the records started, in the order of the
  calls: each record is dispatched at most once and never out of order.
\<close>

theorem queue_dispatch_fifo:
  assumes "pendingOperations m = PendingOperationQueue q" and "running m"
    and "CancelAll \<notin> set calls"
  shows "dispatched (managerCalls (replicate k Finish) (managerCalls (map Start ops) m))
           = dispatched m @ take k (q @ ops)
    \<and> dispatched (managerCalls calls m) @ queued (pendingOperations (managerCalls calls m))
           = dispatched m @ q @ started calls"
proof -
  have "dispatched (managerCalls (replicate k Finish) (managerCalls (map Start ops) m))
           = dispatched m @ take k (q @ ops)"
    using assms(1,2) by (simp add: starts_queue finishes_queue)
  moreover from queue_invariant [OF assms(1) _ assms(3)] assms(2)
  obtain q' where "pendingOperations (managerCalls calls m) = PendingOperationQueue q'"
    and "dispatched (managerCalls calls m) @ q' = dispatched m @ q @ started calls"
    by blast
  then have "dispatched (managerCalls calls m) @ queued (pendingOperations (managerCalls calls m))
           = dispatched m @ q @ started calls"
    by (simp add: queued_def)
  ultimately show ?thesis by blast
qed

theorem queue_dispatch_fifo_witness:
  "dispatched (managerCalls (replicate 2 Finish) (managerCalls (map Start [2, 3, 4::nat])
       (managerCall (Start 1) (newProbe (PendingOperationQueue []))))) = [1, 2, 3]
   \<and> dispatched (managerCalls [Start 2, Finish, Start 3, Finish, Finish, Start 4]
       (managerCall (Start 1) (newProbe (PendingOperationQueue []))))
     @ queued (pendingOperations (managerCalls [Start 2, Finish, Start 3, Finish, Finish, Start 4]
       (managerCall (Start 1) (newProbe (PendingOperationQueue [])))))
      = [1::nat, 2, 3, 4]"
proof -
  let ?m = "managerCall (Start (1::nat)) (newProbe (PendingOperationQueue []))"
  have m: "pendingOperations ?m = PendingOperationQueue []" "running ?m" "dispatched ?m = [1]"
    by (simp_all add: newProbe_def startOperation_probe dispatched_def)
  have c: "CancelAll \<notin> set [Start 2, Finish, Start 3, Finish, Finish, Start (4::nat)]"
    by simp
  from queue_dispatch_fifo [OF m(1) m(2) c, of 2 "[2, 3, 4]"] show ?thesis
    unfolding m(3) by (simp add: started_def del: managerCall.simps)
qed

section \<open>Properties of the timer\<close>

lemmas timer_defs = timer_cancel_def expires_from_now_def expires_at_def async_wait_def
  Timer_cancelOperation_def startTimeoutOperation_def startPeriodicTimeoutOperation_def


lemma timerCall_running:
  assumes "running t"
  shows "running (timerCall now c t) \<and> expiry (timerCall now c t) = expiry t
    \<and> timeouts (timerCall now c t) = timeouts t
    \<and> canceled (timerCall now c t) = (canceled t \<or> c = Cancel)"
  using assms
  by (cases c)
    (simp_all add: startTimeout_def startPeriodicTimeout_def Timer_cancel_def startOperation_def
      cancelOperation_def Let_def timer_defs)

lemma timerCalls_running:
  assumes "running t"
  shows "running (timerCalls now cs t) \<and> expiry (timerCalls now cs t) = expiry t
    \<and> timeouts (timerCalls now cs t) = timeouts t
    \<and> canceled (timerCalls now cs t) = (canceled t \<or> Cancel \<in> set cs)"
  using assms
proof (induction cs arbitrary: t)
  case Nil
  then show ?case by (simp add: timerCalls_def)
next
  case (Cons c cs)
  have 1: "timerCalls now (c # cs) t = timerCalls now cs (timerCall now c t)"
    by (simp add: timerCalls_def)
  from timerCall_running [OF Cons.prems, of now c]
  have 2: "running (timerCall now c t)" "expiry (timerCall now c t) = expiry t"
    "timeouts (timerCall now c t) = timeouts t"
    "canceled (timerCall now c t) = (canceled t \<or> c = Cancel)" by simp_all
  from Cons.IH [OF 2(1)] 2 show ?case unfolding 1 by auto
qed

lemma periodic_next:
  assumes "running t" and "\<not> canceled t" and "Cancel \<notin> set (code (handler st))"
  shows "expiry (periodicLambda (timerScript code now) now False st t) = expiry t + duration st
    \<and> waiting (periodicLambda (timerScript code now) now False st t) = [PeriodicWait st]
    \<and> timeouts (periodicLambda (timerScript code now) now False st t) = timeouts t @ [handler st]"
proof -
  let ?t0 = "t\<lparr>timeouts := timeouts t @ [handler st]\<rparr>"
  let ?t1 = "timerCalls now (code (handler st)) ?t0"
  have r: "running ?t0" using assms(1) by simp
  from timerCalls_running [OF r, of now "code (handler st)"] assms
  have p: "running ?t1" "expiry ?t1 = expiry t" "timeouts ?t1 = timeouts t @ [handler st]"
    "\<not> canceled ?t1" by simp_all
  have "periodicLambda (timerScript code now) now False st t
      = async_wait (PeriodicWait st) (expires_at (expiry ?t1 + duration st) ?t1)"
    using assms(2) p(4)
    by (simp add: periodicLambda_def nextPeriod_def callTimeoutHandler_def timerScript_def
        isCanceled_def)
  then show ?thesis using p by (simp add: timer_defs)
qed

lemma periodic_after_cancel:
  assumes "running t"
  shows "periodicLambda user now' e st ((timerCalls now cs (Timer_cancel t))\<lparr>completed := rest\<rparr>)
      = destroyTimerState now' st ((timerCalls now cs (Timer_cancel t))\<lparr>completed := rest\<rparr>)"
proof -
  have 1: "running (Timer_cancel t)" "canceled (Timer_cancel t)"
    using assms by (simp_all add: Timer_cancel_def cancelOperation_def Let_def timer_defs)
  from timerCalls_running [OF 1(1), of now cs] 1(2)
  have "canceled (timerCalls now cs (Timer_cancel t))" by simp
  then show ?thesis by (simp add: periodicLambda_def isCanceled_def)
qed

lemma periodic_cancel_in_handler:
  assumes "running t" and "\<not> canceled t" and "Cancel \<in> set (code (handler st))"
  shows "periodicLambda (timerScript code now) now False st t
      = destroyTimerState now st
          (timerCalls now (code (handler st)) (t\<lparr>timeouts := timeouts t @ [handler st]\<rparr>))"
proof -
  let ?t0 = "t\<lparr>timeouts := timeouts t @ [handler st]\<rparr>"
  let ?t1 = "timerCalls now (code (handler st)) ?t0"
  have r: "running ?t0" using assms(1) by simp
  from timerCalls_running [OF r, of now "code (handler st)"] assms
  have p: "canceled ?t1" by simp_all
  show ?thesis using p assms(2)
    by (simp add: periodicLambda_def nextPeriod_def callTimeoutHandler_def timerScript_def
        isCanceled_def)
qed

lemma finish_no_timeouts: "timeouts (finishOperation (timerOperation now) t) = timeouts t"
  apply (simp add: finishOperation_def Let_def split: option.splits)
  apply (intro allI impI)
  subgoal for op by (cases op) (simp_all add: timer_defs Let_def)
  done

lemma destroy_no_timeouts: "timeouts (destroyTimerState now st t) = timeouts t"
  by (simp add: destroyTimerState_def destroyNotifier_def finish_no_timeouts)


text \<open>
  C8. A periodic timer started at \<open>now0\<close> with \<open>interval\<close> has its first deadline at
  \<open>now0 + interval\<close> and keeps the interval as the duration of its state. When the
  lambda of the chain runs without error on a running timer that is not canceled, and
  the handler does not cancel the timer, the handler is called once and the chain is
  armed again with the deadline set to the previous deadline plus the duration,
  whatever the current time \<open>now\<close> is and whatever other calls the handler makes on the
  timer. After \<^verbatim>\<open>cancel()\<close>, followed by any calls on the timer and by the executor
  taking the completed wait from its queue, the lambda of the chain (with or without an
  error) calls no handler and only drops its state, which ends the chain; the same holds
  for the rest of a lambda whose handler cancels the timer.
\<close>

theorem periodic_timer_deadlines:
  assumes "running t"
  shows "startPeriodicTimeout now0 interval h newTimer =
           newTimer\<lparr>running := True, expiry := now0 + interval,
                    waiting := [PeriodicWait \<lparr>handler = h, duration = interval, notifier = True\<rparr>]\<rparr>
    \<and> (\<not> canceled t \<and> Cancel \<notin> set (code (handler st)) \<longrightarrow>
         expiry (periodicLambda (timerScript code now) now False st t) = expiry t + duration st
         \<and> waiting (periodicLambda (timerScript code now) now False st t) = [PeriodicWait st]
         \<and> timeouts (periodicLambda (timerScript code now) now False st t)
             = timeouts t @ [handler st])
    \<and> periodicLambda user now' e st ((timerCalls now cs (Timer_cancel t))\<lparr>completed := rest\<rparr>)
         = destroyTimerState now' st ((timerCalls now cs (Timer_cancel t))\<lparr>completed := rest\<rparr>)
    \<and> timeouts (periodicLambda user now' e st
           ((timerCalls now cs (Timer_cancel t))\<lparr>completed := rest\<rparr>)) = timeouts t
    \<and> (\<not> canceled t \<and> Cancel \<in> set (code (handler st)) \<longrightarrow>
         periodicLambda (timerScript code now) now False st t
           = destroyTimerState now st
               (timerCalls now (code (handler st)) (t\<lparr>timeouts := timeouts t @ [handler st]\<rparr>))
         \<and> timeouts (periodicLambda (timerScript code now) now False st t)
             = timeouts t @ [handler st])"
proof -
  have a: "startPeriodicTimeout now0 interval h newTimer =
           newTimer\<lparr>running := True, expiry := now0 + interval,
                    waiting := [PeriodicWait \<lparr>handler = h, duration = interval, notifier = True\<rparr>]\<rparr>"
    by (simp add: startPeriodicTimeout_def startOperation_def newTimer_def timer_defs Let_def)
  have rc: "running (Timer_cancel t)" "timeouts (Timer_cancel t) = timeouts t"
    using assms by (simp_all add: Timer_cancel_def cancelOperation_def Let_def timer_defs)
  have c: "periodicLambda user now' e st ((timerCalls now cs (Timer_cancel t))\<lparr>completed := rest\<rparr>)
         = destroyTimerState now' st ((timerCalls now cs (Timer_cancel t))\<lparr>completed := rest\<rparr>)"
    using assms by (rule periodic_after_cancel)
  have d: "timeouts (periodicLambda user now' e st
       ((timerCalls now cs (Timer_cancel t))\<lparr>completed := rest\<rparr>)) = timeouts t"
    unfolding c using timerCalls_running [OF rc(1), of now cs] rc(2)
    by (simp add: destroy_no_timeouts)
  have r0: "running (t\<lparr>timeouts := timeouts t @ [handler st]\<rparr>)"
    using assms by simp
  have e: "timeouts (destroyTimerState now st
               (timerCalls now (code (handler st)) (t\<lparr>timeouts := timeouts t @ [handler st]\<rparr>)))
        = timeouts t @ [handler st]"
    using timerCalls_running [OF r0, of now "code (handler st)"]
    by (simp add: destroy_no_timeouts)
  show ?thesis
    using a c d e periodic_next [OF assms, of code st now]
      periodic_cancel_in_handler [OF assms, of code st now]
    by auto
qed

theorem periodic_timer_deadlines_witness:
  "expiry (runCompleted (timerScript (\<lambda>h. []) 113) 113
       (timer_expired (startPeriodicTimeout 100 10 (7::nat) newTimer))) = 120
   \<and> timeouts (runCompleted (timerScript (\<lambda>h. []) 113) 113
       (timer_expired (startPeriodicTimeout 100 10 (7::nat) newTimer))) = [7]
   \<and> timeouts (runCompleted (timerScript (\<lambda>h. [Cancel]) 113) 113
       (timer_expired (startPeriodicTimeout 100 10 (7::nat) newTimer))) = [7]
   \<and> waiting (runCompleted (timerScript (\<lambda>h. [Cancel]) 113) 113
       (timer_expired (startPeriodicTimeout 100 10 (7::nat) newTimer))) = []
   \<and> timeouts (runCompleted (timerScript (\<lambda>h. []) 113) 113
       (Timer_cancel (startPeriodicTimeout 100 10 (7::nat) newTimer))) = []
   \<and> waiting (runCompleted (timerScript (\<lambda>h. []) 113) 113
       (Timer_cancel (startPeriodicTimeout 100 10 (7::nat) newTimer))) = []"
proof -
  let ?st = "\<lparr>handler = 7::nat, duration = 10, notifier = True\<rparr>"
  let ?start = "startPeriodicTimeout 100 10 (7::nat) newTimer"
  let ?t = "(timer_expired ?start)\<lparr>completed := []\<rparr>"
  let ?c = "(timerCalls 113 [] (Timer_cancel ?start))\<lparr>completed := []\<rparr>"
  have start: "?start = newTimer\<lparr>running := True, expiry := 110, waiting := [PeriodicWait ?st]\<rparr>"
    by (simp add: startPeriodicTimeout_def startOperation_def newTimer_def timer_defs Let_def)
  have run: "runCompleted user 113 (timer_expired ?start) = periodicLambda user 113 False ?st ?t"
    "runCompleted user 113 (Timer_cancel ?start) = periodicLambda user 113 True ?st ?c" for user
    unfolding start
    by (simp_all add: runCompleted_def timer_expired_def Timer_cancel_def cancelOperation_def
        timerCalls_def newTimer_def timer_defs Let_def)
  have h: "running ?t" "\<not> canceled ?t" "expiry ?t = 110" "timeouts ?t = []"
    "running ?start" "timeouts ?start = []"
    unfolding start
    by (simp_all add: timer_expired_def newTimer_def)
  note a = periodic_timer_deadlines [OF h(1), where code = "\<lambda>h. []" and st = ?st and now = 113,
      THEN conjunct2, THEN conjunct1]
  note b = periodic_timer_deadlines [OF h(1), where code = "\<lambda>h. [Cancel]" and st = ?st and now = 113,
      THEN conjunct2, THEN conjunct2, THEN conjunct2, THEN conjunct2]
  note d = periodic_timer_deadlines [OF h(5), where user = "timerScript (\<lambda>h. []) 113" and now' = 113
      and e = True and st = ?st and now = 113 and cs = "[]" and rest = "[]",
      THEN conjunct2, THEN conjunct2]
  have ha: "\<not> canceled ?t \<and> Cancel \<notin> set ((\<lambda>h. []) (handler ?st))"
    and hb: "\<not> canceled ?t \<and> Cancel \<in> set ((\<lambda>h. [Cancel]) (handler ?st))"
    using h(2) by simp_all
  note a' = a [THEN mp, OF ha]
  note b' = b [THEN mp, OF hb]
  have 1: "expiry (periodicLambda (timerScript (\<lambda>h. []) 113) 113 False ?st ?t) = 120"
    "timeouts (periodicLambda (timerScript (\<lambda>h. []) 113) 113 False ?st ?t) = [7]"
    using a' [THEN conjunct1] a' [THEN conjunct2, THEN conjunct2] h(3,4) by simp_all
  have 2: "timeouts (periodicLambda (timerScript (\<lambda>h. [Cancel]) 113) 113 False ?st ?t) = [7]"
    using b' [THEN conjunct2] h(4) by simp
  have 3: "waiting (periodicLambda (timerScript (\<lambda>h. [Cancel]) 113) 113 False ?st ?t) = []"
    by (subst b' [THEN conjunct1], unfold start)
      (simp add: destroyTimerState_def destroyNotifier_def finishOperation_def timerCalls_def
        Timer_cancel_def cancelOperation_def newTimer_def timer_expired_def timer_defs Let_def)
  have 4: "timeouts (periodicLambda (timerScript (\<lambda>h. []) 113) 113 True ?st ?c) = []"
    using d [THEN conjunct2, THEN conjunct1] h(6) by simp
  have 5: "waiting (periodicLambda (timerScript (\<lambda>h. []) 113) 113 True ?st ?c) = []"
    by (subst d [THEN conjunct1], unfold start)
      (simp add: destroyTimerState_def destroyNotifier_def finishOperation_def timerCalls_def
        Timer_cancel_def cancelOperation_def newTimer_def timer_defs Let_def)
  show ?thesis
    unfolding run using 1 2 3 4 5 by simp
qed

section \<open>Properties of the completion paths\<close>

lemma hasPending_get: "hasPendingOperation pc = (getPendingOperation pc \<noteq> None)"
  by (cases pc rule: getPendingOperation.cases) simp_all

lemma finishOperation_pending:
  "getPendingOperation (pendingOperations m) = Some p \<Longrightarrow>
   finishOperation a m =
     a p (m\<lparr>canceled := False, pendingOperations := popPendingOperation (pendingOperations m)\<rparr>)"
  by (simp add: finishOperation_def Let_def hasPending_get)

lemma finishOperation_idle:
  "\<not> hasPendingOperation (pendingOperations m) \<Longrightarrow>
   finishOperation a m = m\<lparr>canceled := False, running := False\<rparr>"
  by (simp add: finishOperation_def Let_def)

lemma start_after_finish_idle:
  "\<not> hasPendingOperation (pendingOperations m) \<Longrightarrow>
   startOperation c a op (finishOperation a m) = a op (m\<lparr>canceled := False, running := True\<rparr>)"
  by (simp add: finishOperation_idle startOperation_def)

lemma timeoutLambda_calls:
  "\<not> canceled t \<Longrightarrow>
   timeoutLambda user now False st t =
     callTimeoutHandler user (TimerState.handler st) (finishOperation (timerOperation now) t)"
  by (simp add: timeoutLambda_def isCanceled_def notify_def destroyTimerState_def destroyNotifier_def)

lemma receiveLambda_calls:
  "\<not> canceled r \<Longrightarrow>
   receiveLambda user e m (ReceiverState h n) r =
     callReceiveHandler user h e m (finishOperation receiveOperation r)"
  by (simp add: isCanceled_def notify_def destroyNotifier_def)

lemma sendLambda_calls:
  "sendLambda user e (SenderState d h n) s = callSendHandler user h e (finishOperation sendOperation s)"
  by (simp add: notify_def destroyNotifier_def)

lemma connectHandler_calls:
  "Error_bool e \<Longrightarrow>
   connectHandler service user now (ClientState h d timeout startTime n) e c =
     callCallHandler user h e (noResponse service)
       (finishOperation (asyncCallOperation now) (closeSocket c))"
  by (simp add: notify_def destroyNotifier_def)

lemma writeHandler_calls:
  "Error_bool e \<Longrightarrow>
   writeHandler service user now (ClientState h d timeout startTime n) e c =
     callCallHandler user h e (noResponse service)
       (finishOperation (asyncCallOperation now) (closeSocket c))"
  by (simp add: notify_def destroyNotifier_def)

lemma readLambda_calls:
  "readLambda user now (ClientState h d timeout startTime n) e response c =
     callCallHandler user h e response
       (finishOperation (asyncCallOperation now) (closeSocket c))"
  by (simp add: notify_def destroyNotifier_def)



lemma finish_send_calls:
  "handlerCalls (finishOperation sendOperation s) = handlerCalls s"
  apply (simp add: finishOperation_def Let_def split: option.splits)
  apply (intro allI impI)
  subgoal for op by (cases op) (simp add: asyncSendOperation_def setupSocket_def Let_def)
  done

lemma finish_call_calls:
  "handlerCalls (finishOperation (asyncCallOperation now) c) = handlerCalls c"
  apply (simp add: finishOperation_def Let_def split: option.splits)
  apply (intro allI impI)
  subgoal for op
    by (cases op) (simp_all add: newSocket_def asyncConnect_host_def asyncConnect_endpoints_def Let_def)
  done








lemma cancel_closes:
  "socketOpen (DatagramSender_cancel s) = False"
  "handlerCalls (DatagramSender_cancel s) = handlerCalls s"
  "socketOpen (ServiceClient_cancel c) = False"
  "handlerCalls (ServiceClient_cancel c) = handlerCalls c"
  "canceled (DatagramSender_cancel s)"
  "canceled (ServiceClient_cancel c)"
  by (simp_all add: DatagramSender_cancel_def ServiceClient_cancel_def cancelOperation_def
      closeSocket_def Let_def)











text \<open>
  C7. When the encoder of the request fails, \<^verbatim>\<open>asyncCall\<close> (either overload) only appends
  to the tasks posted to the context the task that calls the handler with the encoding
  error and the default response: no handler is called, nothing is put in flight, and
  \<open>running\<close>, \<open>canceled\<close> and the pending container are as before. The handler is called
  when the executor later runs the posted task.
\<close>

theorem asyncCall_encoding_failure:
  assumes "encodeRequest service request = None"
  shows "asyncCall service now request host port timeout h c
           = c\<lparr>posted := posted c @ [(h, encoding, noResponse service)]\<rparr>
    \<and> asyncCallEndpoints service now request endpoints timeout h c
           = c\<lparr>posted := posted c @ [(h, encoding, noResponse service)]\<rparr>
    \<and> handlerCalls (asyncCall service now request host port timeout h c) = handlerCalls c
    \<and> inFlight (asyncCall service now request host port timeout h c) = inFlight c
    \<and> running (asyncCall service now request host port timeout h c) = running c
    \<and> canceled (asyncCall service now request host port timeout h c) = canceled c
    \<and> pendingOperations (asyncCall service now request host port timeout h c) = pendingOperations c
    \<and> runPosted user ((asyncCall service now request host port timeout h c)\<lparr>posted :=
          [(h, encoding, noResponse service)]\<rparr>)
        = callCallHandler user h encoding (noResponse service) (c\<lparr>posted := []\<rparr>)"
  using assms
  by (simp add: asyncCall_def asyncCallEndpoints_def ServiceClient_encode_def post_def runPosted_def)

theorem asyncCall_encoding_failure_witness:
  "asyncCall \<lparr>encodeRequest = (\<lambda>r. None), noResponse = (0::nat)\<rparr> 0 (5::nat) ''host'' 10001 1000 (1::nat)
      (newComponent (PendingOperationQueue []))
    = (newComponent (PendingOperationQueue []))\<lparr>posted := [(1, encoding, 0)]\<rparr>"
  using asyncCall_encoding_failure [where service = "\<lparr>encodeRequest = (\<lambda>r. None), noResponse = (0::nat)\<rparr>"
      and request = "5::nat" and now = 0 and host = "''host''" and port = 10001 and timeout = 1000
      and h = "1::nat" and c = "newComponent (PendingOperationQueue [])"]
  by (simp add: newComponent_def)

lemma probe_finish_pending:
  assumes "getPendingOperation (pendingOperations m) = Some p" and "running m"
  shows "invoked (startOperation probeCanceling probeOperation op (finishOperation probeOperation m))
           = invoked m @ [Operation p]
              @ (if shouldCancel (pendingOperations m) then [CancelingOperation] else [])
    \<and> pendingOperations (startOperation probeCanceling probeOperation op (finishOperation probeOperation m))
           = pushPendingOperation op (popPendingOperation (pendingOperations m))"
proof -
  have sc: "shouldCancel (popPendingOperation (pendingOperations m)) = shouldCancel (pendingOperations m)"
    by (cases "pendingOperations m") simp_all
  show ?thesis
    using assms sc
    by (simp add: finishOperation_pending startOperation_probe probeOperation_def)
qed

text \<open>
  C9 as the code has it. On every completion path that calls a user handler (the
  one-shot timer's lambda without error and not canceled, the receiver's lambda when
  not canceled, the sender's lambda, the client's connect and write handlers on an
  error and its read lambda) the result is the handler called on the state that
  \<^verbatim>\<open>finishOperation\<close> has produced. \<^verbatim>\<open>finishOperation\<close> on a manager with a pending
  record invokes that record, so it is dispatched before the handler runs. A
  \<^verbatim>\<open>startOperation\<close> made by the handler right then invokes its operation directly when
  no record was pending at the completion; when a record was pending on the running
  manager, that record has been dispatched, and the new operation is not invoked but
  pushed into the container.
\<close>

theorem finish_before_handler:
  "(\<not> canceled t \<longrightarrow>
      timeoutLambda userT now False st t
        = callTimeoutHandler userT (handler st) (finishOperation (timerOperation now) t))
   \<and> (\<not> canceled r \<longrightarrow>
      receiveLambda userR e msg (ReceiverState hr nr) r
        = callReceiveHandler userR hr e msg (finishOperation receiveOperation r))
   \<and> sendLambda userS e (SenderState d hs ns) s
        = callSendHandler userS hs e (finishOperation sendOperation s)
   \<and> (Error_bool e' \<longrightarrow>
      connectHandler service userC now (ClientState hc d timeout startTime nc) e' c
        = callCallHandler userC hc e' (noResponse service)
            (finishOperation (asyncCallOperation now) (closeSocket c))
      \<and> writeHandler service userC now (ClientState hc d timeout startTime nc) e' c
        = callCallHandler userC hc e' (noResponse service)
            (finishOperation (asyncCallOperation now) (closeSocket c)))
   \<and> readLambda userC now (ClientState hc d timeout startTime nc) e response c
        = callCallHandler userC hc e response
            (finishOperation (asyncCallOperation now) (closeSocket c))
   \<and> (getPendingOperation (pendingOperations mg) = Some p \<longrightarrow>
        finishOperation a mg
          = a p (mg\<lparr>canceled := False,
                  pendingOperations := popPendingOperation (pendingOperations mg)\<rparr>))
   \<and> (\<not> hasPendingOperation (pendingOperations mg') \<longrightarrow>
        startOperation co a op (finishOperation a mg') = a op (mg'\<lparr>canceled := False, running := True\<rparr>))
   \<and> (getPendingOperation (pendingOperations q) = Some p' \<and> running q \<longrightarrow>
        invoked (startOperation probeCanceling probeOperation op' (finishOperation probeOperation q))
          = invoked q @ [Operation p']
              @ (if shouldCancel (pendingOperations q) then [CancelingOperation] else [])
        \<and> pendingOperations
            (startOperation probeCanceling probeOperation op' (finishOperation probeOperation q))
          = pushPendingOperation op' (popPendingOperation (pendingOperations q)))"
  by (intro conjI impI)
    (rule timeoutLambda_calls receiveLambda_calls sendLambda_calls connectHandler_calls
      writeHandler_calls readLambda_calls finishOperation_pending start_after_finish_idle
      probe_finish_pending [THEN conjunct1] probe_finish_pending [THEN conjunct2]; simp)+


theorem finish_before_handler_witness:
  "timeoutLambda (\<lambda>h t. t) 113 False \<lparr>handler = 7::nat, duration = 10, notifier = True\<rparr>
       ((timer_expired (startTimeout 100 10 7 newTimer))\<lparr>completed := []\<rparr>)
     = callTimeoutHandler (\<lambda>h t. t) 7
         (finishOperation (timerOperation 113)
           ((timer_expired (startTimeout 100 10 7 newTimer))\<lparr>completed := []\<rparr>))
   \<and> receiveLambda (\<lambda>h e m r. r) success (0::nat) (ReceiverState (7::nat) True)
       (newComponent (PendingOperationReplacer None))
     = callReceiveHandler (\<lambda>h e m r. r) 7 success 0
         (finishOperation receiveOperation (newComponent (PendingOperationReplacer None)))
   \<and> connectHandler \<lparr>encodeRequest = Some, noResponse = []\<rparr> (\<lambda>h e r c. c) 5
       (ClientState (1::nat) [65] 1000 0 True) aborted (newComponent (PendingOperationQueue []))
     = callCallHandler (\<lambda>h e r c. c) 1 aborted []
         (finishOperation (asyncCallOperation 5) (closeSocket (newComponent (PendingOperationQueue []))))
   \<and> finishOperation probeOperation
       (managerCalls [Start (1::nat), Start 2] (newProbe (PendingOperationQueue [])))
     = probeOperation 2
         ((managerCalls [Start 1, Start 2] (newProbe (PendingOperationQueue [])))\<lparr>canceled := False,
            pendingOperations := PendingOperationQueue []\<rparr>)
   \<and> startOperation probeCanceling probeOperation 3
       (finishOperation probeOperation (managerCalls [Start (1::nat)] (newProbe (PendingOperationQueue []))))
     = probeOperation 3
         ((managerCalls [Start 1] (newProbe (PendingOperationQueue [])))\<lparr>canceled := False,
            running := True\<rparr>)
   \<and> invoked (startOperation probeCanceling probeOperation 3
       (finishOperation probeOperation
         (managerCalls [Start (1::nat), Start 2] (newProbe (PendingOperationQueue [])))))
     = [Operation 1, Operation 2]"
proof -
  let ?t = "(timer_expired (startTimeout 100 10 (7::nat) newTimer))\<lparr>completed := []\<rparr>"
  let ?r = "newComponent (PendingOperationReplacer None) :: (nat, nat) DatagramReceiver"
  let ?m = "managerCalls [Start (1::nat), Start 2] (newProbe (PendingOperationQueue []))"
  let ?m' = "managerCalls [Start (1::nat)] (newProbe (PendingOperationQueue []))"
  have m: "?m = \<lparr>pendingOperations = PendingOperationQueue [2], running = True, canceled = False,
      invoked = [Operation 1]\<rparr>"
    by (simp add: managerCalls_def newProbe_def startOperation_probe)
  have m': "?m' = \<lparr>pendingOperations = PendingOperationQueue [], running = True, canceled = False,
      invoked = [Operation 1]\<rparr>"
    by (simp add: managerCalls_def newProbe_def startOperation_probe)
  have h: "\<not> canceled ?t" "\<not> canceled ?r" "Error_bool aborted"
    "getPendingOperation (pendingOperations ?m) = Some 2"
    "\<not> hasPendingOperation (pendingOperations ?m')" "running ?m"
    unfolding m m'
    by (simp_all add: timer_expired_def startTimeout_def startOperation_def newTimer_def
        startTimeoutOperation_def expires_from_now_def timer_cancel_def async_wait_def Let_def
        newComponent_def Error_bool_def aborted_def codes_aborted_def)
  note f = finish_before_handler [where t = ?t and userT = "\<lambda>h t. t" and now = 113
      and st = "\<lparr>handler = 7::nat, duration = 10, notifier = True\<rparr>"
      and r = ?r and userR = "\<lambda>h e m r. r" and e = success and msg = "0::nat" and hr = 7 and nr = True
      and e' = aborted and service = "\<lparr>encodeRequest = Some, noResponse = []\<rparr>"
      and userC = "\<lambda>h e r c. c" and hc = "1::nat" and d = "[65]" and timeout = 1000
      and startTime = 0 and nc = True and c = "newComponent (PendingOperationQueue [])"
      and mg = ?m and p = 2 and a = probeOperation and mg' = ?m' and co = probeCanceling and op = 3
      and q = ?m and p' = 2 and op' = 3]
  have pop: "popPendingOperation (pendingOperations ?m) = PendingOperationQueue []"
    "invoked ?m = [Operation 1]" "shouldCancel (pendingOperations ?m) = False"
    unfolding m by simp_all
  have 1: "timeoutLambda (\<lambda>h t. t) 113 False \<lparr>handler = 7::nat, duration = 10, notifier = True\<rparr> ?t
     = callTimeoutHandler (\<lambda>h t. t) 7 (finishOperation (timerOperation 113) ?t)"
    using f [THEN conjunct1, THEN mp, OF h(1)] by (simp only: TimerState.select_convs)
  have 2: "receiveLambda (\<lambda>h e m r. r) success (0::nat) (ReceiverState (7::nat) True) ?r
     = callReceiveHandler (\<lambda>h e m r. r) 7 success 0 (finishOperation receiveOperation ?r)"
    using f [THEN conjunct2, THEN conjunct1, THEN mp, OF h(2)] .
  have 3: "connectHandler \<lparr>encodeRequest = Some, noResponse = []\<rparr> (\<lambda>h e r c. c) 5
       (ClientState (1::nat) [65] 1000 0 True) aborted (newComponent (PendingOperationQueue []))
     = callCallHandler (\<lambda>h e r c. c) 1 aborted []
         (finishOperation (asyncCallOperation 5) (closeSocket (newComponent (PendingOperationQueue []))))"
    using finish_before_handler [where e' = aborted and service = "\<lparr>encodeRequest = Some, noResponse = []\<rparr>"
      and userC = "\<lambda>h e r c. c" and hc = "1::nat" and d = "[65]" and timeout = 1000
      and startTime = 0 and nc = True and c = "newComponent (PendingOperationQueue [])" and now = 5,
      THEN conjunct2, THEN conjunct2, THEN conjunct2, THEN conjunct1, THEN mp, OF h(3),
      THEN conjunct1]
    by (simp only: Service.select_convs)
  have 4: "finishOperation probeOperation ?m
     = probeOperation 2 (?m\<lparr>canceled := False, pendingOperations := PendingOperationQueue []\<rparr>)"
    using f [THEN conjunct2, THEN conjunct2, THEN conjunct2, THEN conjunct2, THEN conjunct2,
      THEN conjunct1, THEN mp, OF h(4)]
    by (simp only: pop)
  have 5: "startOperation probeCanceling probeOperation 3 (finishOperation probeOperation ?m')
     = probeOperation 3 (?m'\<lparr>canceled := False, running := True\<rparr>)"
    using f [THEN conjunct2, THEN conjunct2, THEN conjunct2, THEN conjunct2, THEN conjunct2,
      THEN conjunct2, THEN conjunct1, THEN mp, OF h(5)] .
  have 6: "invoked (startOperation probeCanceling probeOperation 3 (finishOperation probeOperation ?m))
     = [Operation 1, Operation 2]"
    using f [THEN conjunct2, THEN conjunct2, THEN conjunct2, THEN conjunct2, THEN conjunct2,
      THEN conjunct2, THEN conjunct2, THEN mp, OF conjI, OF h(4) h(6), THEN conjunct1]
    by (simp only: pop if_False append_Cons append_Nil)
  show ?thesis
    by (intro conjI) (rule 1 2 3 4 5 6)+
qed

text \<open>
  The claim C9 as stated fails in its last part. The sender has the datagram of handler
  1 in flight and the datagram of handler 2 pending. The first send completes (5 bytes,
  no error); its handler at once starts a third send. The completion has dispatched the
  pending send, so the manager is running: the third send is not started but put in
  the queue, and only the second is in flight.
\<close>

theorem finish_before_handler_counterexample:
  "pendingOperations (sendCompletes (\<lambda>h e s. asyncSend Some [67] (''127.0.0.1'', 10000) 1000 3 s) 0 5
      (asyncSend Some [66] (''127.0.0.1'', 10000) 1000 2
        (asyncSend Some [65] (''127.0.0.1'', 10000) 1000 (1::nat)
          (newComponent (PendingOperationQueue [])))))
     = PendingOperationQueue [SendOperation [67] (''127.0.0.1'', 10000) 1000 3]
   \<and> inFlight (sendCompletes (\<lambda>h e s. asyncSend Some [67] (''127.0.0.1'', 10000) 1000 3 s) 0 5
      (asyncSend Some [66] (''127.0.0.1'', 10000) 1000 2
        (asyncSend Some [65] (''127.0.0.1'', 10000) 1000 (1::nat)
          (newComponent (PendingOperationQueue [])))))
     = [SenderState [66] 2 True]
   \<and> handlerCalls (sendCompletes (\<lambda>h e s. asyncSend Some [67] (''127.0.0.1'', 10000) 1000 3 s) 0 5
      (asyncSend Some [66] (''127.0.0.1'', 10000) 1000 2
        (asyncSend Some [65] (''127.0.0.1'', 10000) 1000 (1::nat)
          (newComponent (PendingOperationQueue [])))))
     = [(1, success)]"
  by (simp add: asyncSend_def startOperation_def newComponent_def asyncSendOperation_def
      setupSocket_def Let_def closeSocket_def sendCompletes_def notify_def destroyNotifier_def
      finishOperation_def callSendHandler_def asyncSendTo_completed_def asyncSendTo_handler_def
      getSize_def frameOf_def Frame_new_def completionError_def)

end
